(* ===== verification/Prelude.thy ===== *)
theory Prelude
  imports Main "HOL-Library.AList"
begin

text \<open>
  Shared vocabulary of the development: the error values the account factory can
  raise, the reading of an optional keyword argument, the collection
  \<open>eval_simps\<close> that evaluates the model on concrete inputs (characters, records of
  fields, the association list of table rows), and generic facts on association
  lists that the table model of \<open>Account\<close> rests on.
\<close>

named_theorems eval_simps "equations that evaluate the model on concrete inputs"

section \<open>Model types\<close>

text \<open>
  Primary keys of the account table are the integer ids of Django's auto field;
  they are never negative, so \<open>nat\<close>. The random strings Django draws
  (password salts, the suffix of an unusable password) are inputs of the model.
\<close>

type_synonym pk = nat
type_synonym rnd_str = string

text \<open>
  Every exception that can escape \<^verbatim>\<open>create_user\<close> or
  \<^verbatim>\<open>create_superuser\<close>: the \<^verbatim>\<open>ValueError\<close> raised by the manager itself,
  the \<^verbatim>\<open>TypeError\<close> of the model constructor on an unknown keyword argument, and
  the \<^verbatim>\<open>IntegrityError\<close> of the database on a violated constraint; and those of
  the queries and attribute reads behind a login: \<^verbatim>\<open>DoesNotExist\<close>,
  \<^verbatim>\<open>MultipleObjectsReturned\<close> and \<^verbatim>\<open>AttributeError\<close>.
\<close>

datatype error =
    ValueError string
  | TypeError "string list"
  | IntegrityError string
  | DoesNotExist
  | MultipleObjectsReturned
  | AttributeError string

text \<open>
  A keyword argument that may be absent: \<open>value_or d v\<close> is the value given, or the
  field's default \<open>d\<close> when the caller did not pass it.
\<close>

fun value_or :: "'a \<Rightarrow> 'a option \<Rightarrow> 'a" where
  "value_or d None = d"
| "value_or d (Some x) = x"

section \<open>Evaluation\<close>

lemmas [eval_simps] = char_of_def bit_0 Let_def

section \<open>Association lists\<close>

text \<open>
  The table is an association list from primary key to row. Updating the row of a
  key keeps any projection of the rows duplicate-free, provided no row under another
  key has the new row's projection.
\<close>

lemma set_update_subset: "set (AList.update k v xs) \<subseteq> insert (k, v) (set xs)"
  by (induction xs) auto

lemma distinct_map_update:
  assumes "distinct (map fst xs)" and "distinct (map f xs)"
    and "\<forall>p \<in> set xs. fst p \<noteq> k \<longrightarrow> f p \<noteq> f (k, v)"
  shows "distinct (map f (AList.update k v xs))"
  using assms
proof (induction xs)
  case Nil
  then show ?case by simp
next
  case (Cons p ps)
  show ?case
  proof (cases "fst p = k")
    case True
    with Cons.prems have "\<forall>q \<in> set ps. f q \<noteq> f (k, v)"
      by (auto simp: image_iff)
    with True Cons.prems show ?thesis by auto
  next
    case False
    with Cons.prems have "f p \<notin> f ` set (AList.update k v ps)"
      using set_update_subset [of k v ps] by auto
    with False Cons show ?thesis by simp
  qed
qed

lemma update_keys_bounded:
  assumes "\<forall>p \<in> set xs. fst p \<le> n" and "k \<le> n"
  shows "\<forall>p \<in> set (AList.update k v xs). fst p \<le> n"
  using assms set_update_subset [of k v xs] by auto

lemma update_append_fresh:
  "k \<notin> fst ` set xs \<Longrightarrow> AList.update k v xs = xs @ [(k, v)]"
  by (induction xs) auto

lemma list_all_update:
  "list_all P xs \<Longrightarrow> P (k, v) \<Longrightarrow> list_all P (AList.update k v xs)"
  using set_update_subset [of k v xs] by (auto simp: list_all_iff)

text \<open>
  Filtering the rows after an update: when the updated key's new entry is the only
  one the predicate keeps, the filter returns exactly that entry.
\<close>

lemma filter_update_single:
  assumes "distinct (map fst xs)" and "P (k, v)" and "\<forall>p \<in> set xs. fst p \<noteq> k \<longrightarrow> \<not> P p"
  shows "filter P (AList.update k v xs) = [(k, v)]"
  using assms
proof (induction xs)
  case Nil
  then show ?case by simp
next
  case (Cons p ps)
  show ?case
  proof (cases "fst p = k")
    case True
    with Cons.prems have "\<forall>q \<in> set ps. \<not> P q" by (auto simp: image_iff)
    with True Cons.prems show ?thesis by (simp add: filter_empty_conv)
  next
    case False
    with Cons show ?thesis by simp
  qed
qed

end
