(* ===== verification/Email.thy ===== *)
theory Email
  imports Prelude
begin

text \<open>
  The e-mail canonicalisation of \<^verbatim>\<open>UserAccountManager.create_user\<close>
  (src/users/models.py, lines 13--14): Django's \<^verbatim>\<open>BaseUserManager.normalize_email\<close>
  followed by Python's \<^verbatim>\<open>str.lower\<close>. The Python primitives it rests on
  (\<^verbatim>\<open>str.isspace\<close>, \<^verbatim>\<open>str.strip\<close>, \<^verbatim>\<open>str.rsplit(sep, 1)\<close>,
  \<^verbatim>\<open>str.lower\<close>) are modelled on strings of code points below 256 (Latin-1),
  one \<open>char\<close> per code point; on that range the definitions agree with CPython.
  The lemmas show that lowering commutes with normalisation, that the canonical form
  is idempotent, lowercase, non-empty for non-empty input, and that it identifies
  addresses that differ only in letter case.
\<close>

section \<open>Python string primitives\<close>

text \<open>\<^verbatim>\<open>str.isspace\<close> on one code point below 256.\<close>

definition is_space :: "char \<Rightarrow> bool" where
  "is_space c = (let n = of_char c :: nat in
     (9 \<le> n \<and> n \<le> 13) \<or> (28 \<le> n \<and> n \<le> 32) \<or> n = 133 \<or> n = 160)"

text \<open>\<^verbatim>\<open>str.strip()\<close>: drop white space at both ends.\<close>

definition strip :: "string \<Rightarrow> string" where
  "strip s = rev (dropWhile is_space (rev (dropWhile is_space s)))"

text \<open>
  \<^verbatim>\<open>str.lower\<close> on one code point below 256: the ASCII capitals and the Latin-1
  capitals U+00C0--U+00DE except the multiplication sign U+00D7 move up by 32.
\<close>

definition is_upper :: "nat \<Rightarrow> bool" where
  "is_upper n \<longleftrightarrow> (65 \<le> n \<and> n \<le> 90) \<or> (192 \<le> n \<and> n \<le> 222 \<and> n \<noteq> 215)"

definition lower_char :: "char \<Rightarrow> char" where
  "lower_char c = (let n = of_char c :: nat in if is_upper n then char_of (n + 32) else c)"

definition lower :: "string \<Rightarrow> string" where
  "lower s = map lower_char s"

text \<open>
  \<^verbatim>\<open>s.rsplit(c, 1)\<close> unpacked into two names: the parts before and after the last
  \<open>c\<close>; \<open>None\<close> where the unpacking raises \<^verbatim>\<open>ValueError\<close> (no \<open>c\<close> in \<open>s\<close>).
\<close>

definition rsplit1 :: "char \<Rightarrow> string \<Rightarrow> (string \<times> string) option" where
  "rsplit1 c s = (case dropWhile (\<lambda>x. x \<noteq> c) (rev s) of
      [] \<Rightarrow> None
    | _ # pre \<Rightarrow> Some (rev pre, rev (takeWhile (\<lambda>x. x \<noteq> c) (rev s))))"

section \<open>Django's normalize_email and the manager's canonical form\<close>

text \<open>
  \<^verbatim>\<open>BaseUserManager.normalize_email\<close>: strip, split at the last \<open>@\<close> and
  lowercase the domain part; an address without \<open>@\<close> is returned as given, not
  stripped (the \<^verbatim>\<open>ValueError\<close> of the unpacking is caught). The source's
  \<^verbatim>\<open>email or ""\<close> is the identity on the non-empty strings the manager passes.
\<close>

definition normalize_email :: "string \<Rightarrow> string" where
  "normalize_email email = (case rsplit1 (CHR ''@'') (strip email) of
      None \<Rightarrow> email
    | Some (email_name, domain_part) \<Rightarrow> email_name @ ''@'' @ lower domain_part)"

text \<open>Lines 13--14 of \<^verbatim>\<open>create_user\<close>: normalise, then lowercase the whole result.\<close>

definition clean_email :: "string \<Rightarrow> string" where
  "clean_email email = lower (normalize_email email)"

lemmas [eval_simps] = is_space_def strip_def is_upper_def lower_char_def lower_def rsplit1_def
  normalize_email_def clean_email_def

section \<open>Characters\<close>

lemma lower_char_idem [simp]: "lower_char (lower_char c) = lower_char c"
  by (simp add: lower_char_def is_upper_def Let_def)

lemma is_space_lower_char [simp]: "is_space (lower_char c) = is_space c"
  by (auto simp: lower_char_def is_upper_def is_space_def Let_def)

lemma of_char_lower_char:
  "of_char (lower_char c) = (if is_upper (of_char c) then of_char c + 32 else (of_char c :: nat))"
  by (auto simp: lower_char_def is_upper_def Let_def)

lemma lower_char_at [simp]: "lower_char c = CHR ''@'' \<longleftrightarrow> c = CHR ''@''"
proof -
  have "lower_char c = CHR ''@'' \<longleftrightarrow> of_char (lower_char c) = (of_char (CHR ''@'') :: nat)"
    by (simp only: of_char_eq_iff)
  also have "\<dots> \<longleftrightarrow> of_char c = (of_char (CHR ''@'') :: nat)"
    by (simp add: of_char_lower_char is_upper_def)
  finally show ?thesis by (simp only: of_char_eq_iff)
qed

lemma at_lower_char [simp]: "CHR ''@'' = lower_char c \<longleftrightarrow> c = CHR ''@''"
  by (metis lower_char_at)

section \<open>Lowering\<close>

lemma lower_Nil [simp]: "lower [] = []"
  and lower_Cons [simp]: "lower (c # s) = lower_char c # lower s"
  and lower_append [simp]: "lower (s @ t) = lower s @ lower t"
  and lower_rev: "lower (rev s) = rev (lower s)"
  and length_lower [simp]: "length (lower s) = length s"
  by (simp_all add: lower_def rev_map)

lemma lower_idem [simp]: "lower (lower s) = lower s"
  by (induction s) simp_all

lemma lower_eq_Nil_iff [simp]: "lower s = [] \<longleftrightarrow> s = []"
  by (simp add: lower_def)

lemma at_in_lower [simp]: "CHR ''@'' \<in> set (lower s) \<longleftrightarrow> CHR ''@'' \<in> set s"
  by (induction s) auto

section \<open>Splitting at the last separator\<close>

lemma dropWhile_ne_sep: "c \<notin> set xs \<Longrightarrow> dropWhile (\<lambda>x. x \<noteq> c) (xs @ c # ys) = c # ys"
  and takeWhile_ne_sep: "c \<notin> set xs \<Longrightarrow> takeWhile (\<lambda>x. x \<noteq> c) (xs @ c # ys) = xs"
  by (induction xs) auto

lemma rsplit1_None_iff: "rsplit1 c s = None \<longleftrightarrow> c \<notin> set s"
proof
  assume "rsplit1 c s = None"
  then have "dropWhile (\<lambda>x. x \<noteq> c) (rev s) = []"
    by (simp add: rsplit1_def split: list.splits)
  then show "c \<notin> set s" by auto
next
  assume "c \<notin> set s"
  then have "dropWhile (\<lambda>x. x \<noteq> c) (rev s) = []" by auto
  then show "rsplit1 c s = None" by (simp add: rsplit1_def del: dropWhile_eq_Nil_conv)
qed

lemma rsplit1_SomeD:
  assumes "rsplit1 c s = Some (a, b)"
  shows "s = a @ c # b \<and> c \<notin> set b"
proof -
  let ?P = "\<lambda>x. x \<noteq> c"
  obtain x pre where dw: "dropWhile ?P (rev s) = x # pre"
    and ab: "a = rev pre" "b = rev (takeWhile ?P (rev s))"
    using assms by (auto simp: rsplit1_def split: list.splits)
  from dw have "x = c" using hd_dropWhile [of ?P "rev s"] by simp
  have "rev s = takeWhile ?P (rev s) @ dropWhile ?P (rev s)" by simp
  with dw \<open>x = c\<close> have "s = rev pre @ c # rev (takeWhile ?P (rev s))"
    by (metis rev_append rev_rev_ident rev.simps(2) append_assoc append_Cons append_Nil)
  moreover have "c \<notin> set (takeWhile ?P (rev s))"
    by (auto dest: set_takeWhileD)
  ultimately show ?thesis using ab by simp
qed

lemma rsplit1_append:
  assumes "c \<notin> set b"
  shows "rsplit1 c (a @ c # b) = Some (a, b)"
  using assms by (simp add: rsplit1_def dropWhile_ne_sep takeWhile_ne_sep)

lemma rsplit1_map:
  assumes f: "\<And>x. f x = c \<longleftrightarrow> x = c"
  shows "rsplit1 c (map f s) = map_option (map_prod (map f) (map f)) (rsplit1 c s)"
proof (cases "rsplit1 c s")
  case None
  then have "c \<notin> set s" by (simp add: rsplit1_None_iff)
  then have "c \<notin> set (map f s)" by (metis f imageE set_map)
  then have "rsplit1 c (map f s) = None" using rsplit1_None_iff by blast
  with None show ?thesis by simp
next
  case (Some ab)
  then obtain a b where ab: "rsplit1 c s = Some (a, b)" by (cases ab) auto
  then have "s = a @ c # b" and "c \<notin> set b" by (simp_all add: rsplit1_SomeD)
  moreover have "c \<notin> set (map f b)" using \<open>c \<notin> set b\<close> by (metis f imageE set_map)
  moreover have "f c = c" using f by simp
  ultimately show ?thesis using ab rsplit1_append [of c "map f b" "map f a"] by simp
qed

section \<open>Stripping\<close>

lemma strip_map:
  assumes "\<And>x. is_space (f x) = is_space x"
  shows "strip (map f s) = map f (strip s)"
  using assms by (simp add: strip_def dropWhile_map rev_map comp_def)

lemma strip_lower: "strip (lower s) = lower (strip s)"
  by (simp add: lower_def strip_map)

lemma strip_ends:
  assumes "strip s \<noteq> []"
  shows "\<not> is_space (hd (strip s)) \<and> \<not> is_space (last (strip s))"
proof -
  define t where "t = dropWhile is_space s"
  define u where "u = dropWhile is_space (rev t)"
  have st: "strip s = rev u" by (simp add: strip_def t_def u_def)
  have "rev t = takeWhile is_space (rev t) @ u" by (simp add: u_def)
  then have t: "t = rev u @ rev (takeWhile is_space (rev t))"
    by (metis rev_append rev_rev_ident)
  from assms st have "u \<noteq> []" by simp
  then have "t \<noteq> []" and "hd (rev u) = hd t"
    using t by (metis Nil_is_append_conv rev_is_Nil_conv, metis hd_append2 rev_is_Nil_conv)
  then have "\<not> is_space (hd (rev u))" using hd_dropWhile [of is_space s] by (simp add: t_def)
  moreover have "\<not> is_space (last (rev u))"
    using \<open>u \<noteq> []\<close> hd_dropWhile [of is_space "rev t"] by (simp add: last_rev u_def)
  ultimately show ?thesis using st by simp
qed

lemma strip_id:
  assumes "s = [] \<or> (\<not> is_space (hd s) \<and> \<not> is_space (last s))"
  shows "strip s = s"
proof (cases "s = []")
  case False
  with assms have "dropWhile is_space s = s" and "dropWhile is_space (rev s) = rev s"
    by (simp_all add: dropWhile_eq_self_iff hd_rev)
  then show ?thesis by (simp add: strip_def)
qed (simp add: strip_def)

section \<open>The canonical form\<close>

lemma is_space_at [simp]: "\<not> is_space (CHR ''@'')"
  by (simp add: is_space_def)

lemma normalize_email_lower: "normalize_email (lower s) = lower (normalize_email s)"
proof -
  have "rsplit1 (CHR ''@'') (lower (strip s)) =
      map_option (map_prod lower lower) (rsplit1 (CHR ''@'') (strip s))"
    unfolding lower_def by (rule rsplit1_map) simp
  then show ?thesis
    by (auto simp: normalize_email_def strip_lower split: option.splits)
qed

text \<open>
  Where the stripped address has an \<open>@\<close>, the normal form starts and ends with
  no white space and splits at the same \<open>@\<close>: normalising again changes nothing.
\<close>

lemma normalize_email_idem: "normalize_email (normalize_email s) = normalize_email s"
proof (cases "rsplit1 (CHR ''@'') (strip s)")
  case None
  then show ?thesis by (simp add: normalize_email_def)
next
  case (Some nd)
  then obtain n d where nd: "rsplit1 (CHR ''@'') (strip s) = Some (n, d)" by (cases nd) auto
  then have st: "strip s = n @ CHR ''@'' # d" and at: "CHR ''@'' \<notin> set d"
    by (simp_all add: rsplit1_SomeD)
  define w where "w = n @ CHR ''@'' # lower d"
  have norm: "normalize_email s = w" using nd by (simp add: normalize_email_def w_def)
  have ends: "\<not> is_space (hd (strip s)) \<and> \<not> is_space (last (strip s))"
    using st strip_ends [of s] by simp
  have "\<not> is_space (hd w)"
    using ends st by (cases n) (simp_all add: w_def)
  moreover have "\<not> is_space (last w)"
  proof (cases "d = []")
    case False
    then have "last w = lower_char (last d)" by (simp add: w_def lower_def last_map)
    with ends st False show ?thesis by simp
  qed (simp add: w_def)
  ultimately have "strip w = w" by (simp add: strip_id)
  moreover have "rsplit1 (CHR ''@'') w = Some (n, lower d)"
    using at by (simp add: w_def rsplit1_append)
  ultimately show ?thesis using norm by (simp add: normalize_email_def w_def)
qed

lemma clean_email_alt: "clean_email e = normalize_email (lower e)"
  by (simp add: clean_email_def normalize_email_lower)

lemma normalize_email_eq_Nil_iff [simp]: "normalize_email s = [] \<longleftrightarrow> s = []"
  by (auto simp: normalize_email_def strip_def rsplit1_def split: option.splits)

lemma clean_email_eq_Nil_iff [simp]: "clean_email e = [] \<longleftrightarrow> e = []"
  by (simp add: clean_email_def)

lemma clean_email_lowercase [simp]: "lower (clean_email e) = clean_email e"
  by (simp add: clean_email_def)

lemma set_strip: "set (strip s) \<subseteq> set s"
proof
  fix x assume "x \<in> set (strip s)"
  then have "x \<in> set (dropWhile is_space (rev (dropWhile is_space s)))" by (simp add: strip_def)
  then have "x \<in> set (dropWhile is_space s)" by (auto dest: set_dropWhileD)
  then show "x \<in> set s" by (rule set_dropWhileD)
qed

lemma normalize_email_no_at: "CHR ''@'' \<notin> set e \<Longrightarrow> normalize_email e = e"
proof -
  assume "CHR ''@'' \<notin> set e"
  then have "CHR ''@'' \<notin> set (strip e)" using set_strip by blast
  then have "rsplit1 (CHR ''@'') (strip e) = None" using rsplit1_None_iff by blast
  then show ?thesis by (simp add: normalize_email_def)
qed

section \<open>Properties of the canonical form\<close>

text \<open>
  Canonicalising a stored address again changes nothing: the addresses the factory
  stores are exactly the fixed points of \<open>clean_email\<close> it produces.
\<close>

lemma clean_email_idem: "clean_email (clean_email e) = clean_email e"
proof -
  have "clean_email (clean_email e) = lower (normalize_email (lower (normalize_email e)))"
    by (simp add: clean_email_def)
  also have "\<dots> = lower (lower (normalize_email (normalize_email e)))"
    by (simp add: normalize_email_lower)
  also have "\<dots> = clean_email e"
    by (simp add: normalize_email_idem clean_email_def)
  finally show ?thesis .
qed

text \<open>
  C15: addresses that differ only in letter case (local part included) have the same
  canonical form, so they name the same account.
\<close>

theorem clean_email_case_insensitive:
  assumes "lower e1 = lower e2"
  shows "clean_email e1 = clean_email e2"
  using assms by (simp add: clean_email_alt)

theorem clean_email_case_insensitive_witness:
  "lower ''Foo@Example.COM'' = lower ''fOO@example.com''
   \<and> clean_email ''Foo@Example.COM'' = clean_email ''fOO@example.com''"
proof -
  have h: "lower ''Foo@Example.COM'' = lower ''fOO@example.com''" by (simp add: eval_simps)
  from h clean_email_case_insensitive [OF h] show ?thesis by blast
qed

text \<open>
  \<^verbatim>\<open>rsplit('@', 1)\<close> succeeds exactly on strings with a separator, and its
  two parts rebuild the string around the last one.
\<close>

lemma rsplit1_roundtrip: "rsplit1 c s = Some (a, b) \<longleftrightarrow> s = a @ c # b \<and> c \<notin> set b"
  using rsplit1_SomeD rsplit1_append by blast

lemma strip_decomp:
  "\<exists>a b. s = a @ strip s @ b \<and> (\<forall>x \<in> set a. is_space x) \<and> (\<forall>x \<in> set b. is_space x)"
proof -
  let ?t = "dropWhile is_space s"
  have s: "s = takeWhile is_space s @ ?t" by simp
  have "rev ?t = takeWhile is_space (rev ?t) @ dropWhile is_space (rev ?t)" by simp
  then have t: "?t = strip s @ rev (takeWhile is_space (rev ?t))"
    by (metis rev_append rev_rev_ident strip_def)
  have "s = takeWhile is_space s @ strip s @ rev (takeWhile is_space (rev ?t))"
    using s t by (metis append.assoc)
  moreover have "\<forall>x \<in> set (takeWhile is_space s). is_space x" by (auto dest: set_takeWhileD)
  moreover have "\<forall>x \<in> set (rev (takeWhile is_space (rev ?t))). is_space x" by (auto dest: set_takeWhileD)
  ultimately show ?thesis by blast
qed

lemma at_in_strip: "CHR ''@'' \<in> set (strip s) \<longleftrightarrow> CHR ''@'' \<in> set s"
proof
  assume "CHR ''@'' \<in> set (strip s)"
  then show "CHR ''@'' \<in> set s" using set_strip by blast
next
  assume at: "CHR ''@'' \<in> set s"
  obtain a b where "s = a @ strip s @ b" and "\<forall>x \<in> set a. is_space x" and "\<forall>x \<in> set b. is_space x"
    using strip_decomp by blast
  with at show "CHR ''@'' \<in> set (strip s)" by (metis Un_iff is_space_at set_append)
qed

text \<open>
  C16: the canonical form of an address with an \<open>@\<close> is the stripped address in
  lowercase; an address without \<open>@\<close> is only lowercased, white space included.
\<close>

theorem clean_email_characterisation:
  "clean_email e = (if CHR ''@'' \<in> set e then lower (strip e) else lower e)"
proof (cases "CHR ''@'' \<in> set e")
  case True
  then have "CHR ''@'' \<in> set (strip e)" by (simp add: at_in_strip)
  then obtain n d where nd: "rsplit1 (CHR ''@'') (strip e) = Some (n, d)"
    by (cases "rsplit1 (CHR ''@'') (strip e)") (auto simp: rsplit1_None_iff)
  then have "strip e = n @ CHR ''@'' # d" by (simp add: rsplit1_SomeD)
  with nd True show ?thesis by (simp add: clean_email_def normalize_email_def)
next
  case False
  then show ?thesis by (simp add: clean_email_def normalize_email_no_at)
qed

end
