(* ===== verification/Password.thy ===== *)
theory Password
  imports Prelude
begin

text \<open>
  The password collaborator of line 22 of src/users/models.py
  (\<^verbatim>\<open>user.set_password(password)\<close>): Django's \<^verbatim>\<open>make_password\<close>,
  \<^verbatim>\<open>check_password\<close> and \<^verbatim>\<open>is_password_usable\<close>
  (django/contrib/auth/hashers.py). The hash algorithm itself is external: it is the
  interface \<open>hasher\<close> (the \<^verbatim>\<open>encode\<close> and \<^verbatim>\<open>verify\<close> methods of the
  configured password hasher), with the two properties every Django hasher has stated
  as \<open>hasher_ok\<close>. Salts and the suffix of an unusable password come from
  \<^verbatim>\<open>get_random_string\<close>; they are an input \<open>rnd\<close> of the model. The lemmas show
  that an absent password yields a stored value that no candidate password matches,
  and that a given password is accepted afterwards and, for a collision-free hasher,
  only it.
\<close>

record hasher =
  encode :: "string \<Rightarrow> string \<Rightarrow> string"
  verify :: "string \<Rightarrow> string \<Rightarrow> bool"

text \<open>Python's \<^verbatim>\<open>str.startswith\<close>.\<close>

definition starts_with :: "string \<Rightarrow> string \<Rightarrow> bool" where
  "starts_with s p \<longleftrightarrow> take (length p) s = p"

definition unusable_password_prefix :: string where
  "unusable_password_prefix = ''!''"

text \<open>
  \<^verbatim>\<open>make_password(password)\<close>: \<^verbatim>\<open>None\<close> gives the unusable marker
  \<open>!\<close> followed by a random string, a string is encoded by the hasher with a fresh
  salt.
\<close>

definition make_password :: "hasher \<Rightarrow> rnd_str \<Rightarrow> string option \<Rightarrow> string" where
  "make_password H rnd password = (case password of
      None \<Rightarrow> unusable_password_prefix @ rnd
    | Some p \<Rightarrow> encode H p rnd)"

definition is_password_usable :: "string \<Rightarrow> bool" where
  "is_password_usable encoded \<longleftrightarrow> \<not> starts_with encoded unusable_password_prefix"

text \<open>
  \<^verbatim>\<open>check_password(password, encoded)\<close>: \<^verbatim>\<open>False\<close> for an absent candidate
  or an unusable stored value, otherwise the hasher's verdict.
\<close>

definition check_password :: "hasher \<Rightarrow> string option \<Rightarrow> string \<Rightarrow> bool" where
  "check_password H password encoded = (case password of
      None \<Rightarrow> False
    | Some p \<Rightarrow> is_password_usable encoded \<and> verify H p encoded)"

text \<open>
  What every hasher of Django guarantees: an encoding verifies against its own
  password, and it starts with the algorithm name, never with \<open>!\<close>.
  \<open>hasher_injective\<close> is the idealisation that no two passwords share an encoding.
\<close>

definition hasher_ok :: "hasher \<Rightarrow> bool" where
  "hasher_ok H \<longleftrightarrow> (\<forall>p s. verify H p (encode H p s)) \<and> (\<forall>p s. is_password_usable (encode H p s))"

definition hasher_injective :: "hasher \<Rightarrow> bool" where
  "hasher_injective H \<longleftrightarrow> (\<forall>p q s. verify H q (encode H p s) \<longrightarrow> q = p)"

text \<open>
  A hasher that tags the password instead of hashing it: the simplest instance of the
  interface, with both properties, used to run the factory on concrete inputs.
\<close>

definition plain_hasher :: hasher where
  "plain_hasher = \<lparr>encode = (\<lambda>p s. ''plain$'' @ p), verify = (\<lambda>p e. e = ''plain$'' @ p)\<rparr>"

lemmas [eval_simps] = plain_hasher_def starts_with_def unusable_password_prefix_def make_password_def
  is_password_usable_def check_password_def hasher_ok_def hasher_injective_def

lemma unusable_not_usable [simp]:
  "\<not> is_password_usable (unusable_password_prefix @ rnd)"
  by (simp add: is_password_usable_def starts_with_def)

lemma make_password_None_unusable [simp]: "\<not> is_password_usable (make_password H rnd None)"
  by (simp add: make_password_def)

lemma make_password_usable_iff:
  "hasher_ok H \<Longrightarrow> is_password_usable (make_password H rnd pw) \<longleftrightarrow> pw \<noteq> None"
  by (cases pw) (simp_all add: make_password_def hasher_ok_def)

lemma check_password_unusable [simp]:
  "check_password H cand (unusable_password_prefix @ rnd) = False"
  by (cases cand) (simp_all add: check_password_def)

lemma check_make_password_None [simp]:
  "check_password H cand (make_password H rnd None) = False"
  by (simp add: make_password_def)

lemma check_make_password_Some:
  "hasher_ok H \<Longrightarrow> check_password H cand (make_password H rnd (Some p)) \<longleftrightarrow>
     cand \<noteq> None \<and> verify H (the cand) (encode H p rnd)"
  by (cases cand) (simp_all add: check_password_def make_password_def hasher_ok_def)

end
