(* ===== verification/Account.thy ===== *)
theory Account
  imports Email Password
begin

text \<open>
  The model \<^verbatim>\<open>UserAccount\<close> (src/users/models.py, lines 42--64) and the part of
  Django's ORM the manager drives: the model constructor, \<^verbatim>\<open>set_password\<close>,
  \<^verbatim>\<open>save()\<close> and loading a row back. The stored columns are the record
  \<open>user_row\<close>, in Django's field order (the inherited \<^verbatim>\<open>password\<close> and
  \<^verbatim>\<open>last_login\<close> of \<^verbatim>\<open>AbstractBaseUser\<close>, then the fields the model
  declares); a Python instance \<open>user_account\<close> extends it by its primary key and by
  the attribute \<^verbatim>\<open>is_staff\<close>, which no field declares and which therefore lives
  only on the instance. The table is an association list from primary key to row with
  an auto-increment counter (SQLite's \<^verbatim>\<open>AUTOINCREMENT\<close>, Django's default
  backend), and its \<^verbatim>\<open>UNIQUE\<close> constraint on \<^verbatim>\<open>email\<close> is checked on every
  insert and update. The lemmas characterise \<open>save\<close> on each of its three paths
  and show that it keeps the table invariant \<open>db_inv\<close>.
\<close>

section \<open>Rows and instances\<close>

record user_row =
  password :: string
  last_login :: "nat option"
  is_superuser :: bool
  first_name :: string
  last_name :: string
  email :: string
  is_active :: bool
  is_admin :: bool

record user_account = user_row +
  pk :: "pk option"
  is_staff :: "bool option"

text \<open>
  The keyword arguments the constructor understands (one per concrete field; a key
  the caller did not pass is \<open>None\<close>), and the names of any others. \<open>kw_id\<close> also
  stands for \<^verbatim>\<open>pk=\<close>, which the constructor routes to \<^verbatim>\<open>id\<close>.
\<close>

record extra_fields =
  kw_id :: "pk option"
  kw_password :: "string option"
  kw_last_login :: "nat option option"
  kw_is_superuser :: "bool option"
  kw_first_name :: "string option"
  kw_last_name :: "string option"
  kw_is_active :: "bool option"
  kw_is_admin :: "bool option"
  kw_unexpected :: "string list"

definition no_extra_fields :: extra_fields where
  "no_extra_fields = \<lparr>kw_id = None, kw_password = None, kw_last_login = None,
     kw_is_superuser = None, kw_first_name = None, kw_last_name = None,
     kw_is_active = None, kw_is_admin = None, kw_unexpected = []\<rparr>"

text \<open>
  \<^verbatim>\<open>self.model(email=email, **kwargs)\<close>: every field takes the keyword argument
  or its declared default (\<^verbatim>\<open>''\<close> for a \<^verbatim>\<open>CharField\<close> without default,
  \<^verbatim>\<open>is_active=True\<close>, \<^verbatim>\<open>is_admin=False\<close>, \<^verbatim>\<open>is_superuser=False\<close>); an
  unknown keyword raises \<^verbatim>\<open>TypeError\<close>.
\<close>

definition new_user :: "string \<Rightarrow> extra_fields \<Rightarrow> error + user_account" where
  "new_user e kw =
    (if kw_unexpected kw \<noteq> [] then Inl (TypeError (kw_unexpected kw))
     else Inr \<lparr>password = value_or '''' (kw_password kw),
               last_login = value_or None (kw_last_login kw),
               is_superuser = value_or False (kw_is_superuser kw),
               first_name = value_or '''' (kw_first_name kw),
               last_name = value_or '''' (kw_last_name kw),
               email = e,
               is_active = value_or True (kw_is_active kw),
               is_admin = value_or False (kw_is_admin kw),
               pk = kw_id kw,
               is_staff = None\<rparr>)"

text \<open>\<^verbatim>\<open>AbstractBaseUser.set_password\<close>, \<^verbatim>\<open>check_password\<close> and \<^verbatim>\<open>has_usable_password\<close>.\<close>

definition set_password :: "hasher \<Rightarrow> rnd_str \<Rightarrow> string option \<Rightarrow> 'a user_row_scheme \<Rightarrow> 'a user_row_scheme" where
  "set_password H rnd raw_password u = u\<lparr>password := make_password H rnd raw_password\<rparr>"

definition user_check_password :: "hasher \<Rightarrow> string option \<Rightarrow> 'a user_row_scheme \<Rightarrow> bool" where
  "user_check_password H raw_password u = check_password H raw_password (password u)"

definition has_usable_password :: "'a user_row_scheme \<Rightarrow> bool" where
  "has_usable_password u = is_password_usable (password u)"

text \<open>\<^verbatim>\<open>__str__\<close>, \<^verbatim>\<open>USERNAME_FIELD\<close> and \<^verbatim>\<open>REQUIRED_FIELDS\<close>.\<close>

definition user_str :: "'a user_row_scheme \<Rightarrow> string" where
  "user_str u = email u"

text \<open>\<^verbatim>\<open>get_username()\<close>: the value of the \<^verbatim>\<open>USERNAME_FIELD\<close> column.\<close>

definition get_username :: "'a user_row_scheme \<Rightarrow> string" where
  "get_username u = email u"

definition username_field :: string where
  "username_field = ''email''"

definition required_fields :: "string list" where
  "required_fields = [''first_name'', ''last_name'']"

section \<open>The table\<close>

record db =
  rows :: "(pk \<times> user_row) list"
  seq :: pk

definition empty_db :: db where
  "empty_db = \<lparr>rows = [], seq = 0\<rparr>"

definition unique_email_violation :: error where
  "unique_email_violation = IntegrityError ''UNIQUE constraint failed: users_useraccount.email''"

text \<open>A row other than the one with key \<open>except\<close> already holds the address.\<close>

definition email_taken :: "db \<Rightarrow> pk option \<Rightarrow> string \<Rightarrow> bool" where
  "email_taken d except e = list_ex (\<lambda>(i, r). email r = e \<and> Some i \<noteq> except) (rows d)"

text \<open>The values of the concrete fields, which \<^verbatim>\<open>INSERT\<close> and \<^verbatim>\<open>UPDATE\<close> write.\<close>

definition row_of :: "user_account \<Rightarrow> user_row" where
  "row_of u = \<lparr>password = password u, last_login = last_login u,
     is_superuser = is_superuser u, first_name = first_name u, last_name = last_name u,
     email = email u, is_active = is_active u, is_admin = is_admin u\<rparr>"

text \<open>
  \<^verbatim>\<open>Model.save()\<close> (\<^verbatim>\<open>_save_table\<close>): without a primary key, an
  \<^verbatim>\<open>INSERT\<close> that draws the next id; with one, an \<^verbatim>\<open>UPDATE\<close> of that row if
  it exists and otherwise an \<^verbatim>\<open>INSERT\<close> under the given id. Each statement fails
  with \<^verbatim>\<open>IntegrityError\<close> when another row holds the address, and then changes
  nothing.
\<close>

definition save :: "db \<Rightarrow> user_account \<Rightarrow> error + (db \<times> user_account)" where
  "save d u = (case pk u of
      None \<Rightarrow>
        (if email_taken d None (email u) then Inl unique_email_violation
         else let i = Suc (seq d) in
           Inr (d\<lparr>rows := AList.update i (row_of u) (rows d), seq := i\<rparr>, u\<lparr>pk := Some i\<rparr>))
    | Some i \<Rightarrow>
        (case map_of (rows d) i of
          Some _ \<Rightarrow>
            (if email_taken d (Some i) (email u) then Inl unique_email_violation
             else Inr (d\<lparr>rows := AList.update i (row_of u) (rows d)\<rparr>, u))
        | None \<Rightarrow>
            (if email_taken d None (email u) then Inl unique_email_violation
             else Inr (d\<lparr>rows := AList.update i (row_of u) (rows d), seq := max (seq d) i\<rparr>, u))))"

text \<open>
  The instance Django builds from a fetched row (\<^verbatim>\<open>Model.from_db\<close>): the columns,
  the key, and no \<^verbatim>\<open>is_staff\<close>. \<^verbatim>\<open>UserAccount.objects.get(pk=i)\<close>
  returns it for the row of key \<open>i\<close>.
\<close>

definition account_of :: "pk \<Rightarrow> user_row \<Rightarrow> user_account" where
  "account_of i r = \<lparr>password = password r, last_login = last_login r,
     is_superuser = is_superuser r, first_name = first_name r, last_name = last_name r,
     email = email r, is_active = is_active r, is_admin = is_admin r,
     pk = Some i, is_staff = None\<rparr>"

definition get_user :: "db \<Rightarrow> pk \<Rightarrow> user_account option" where
  "get_user d i = map_option (account_of i) (map_of (rows d) i)"

text \<open>
  The table invariant: keys are distinct, addresses are distinct (the
  \<^verbatim>\<open>UNIQUE\<close> constraint), and no key exceeds the auto-increment counter.
\<close>

definition db_inv :: "db \<Rightarrow> bool" where
  "db_inv d \<longleftrightarrow> distinct (map fst (rows d)) \<and> distinct (map (\<lambda>(i, r). email r) (rows d))
     \<and> list_all (\<lambda>(i, r). i \<le> seq d) (rows d)"

definition emails_clean :: "db \<Rightarrow> bool" where
  "emails_clean d \<longleftrightarrow> list_all (\<lambda>(i, r). lower (email r) = email r \<and> email r \<noteq> []) (rows d)"

lemmas [eval_simps] = no_extra_fields_def new_user_def set_password_def user_check_password_def
  has_usable_password_def user_str_def get_username_def empty_db_def unique_email_violation_def
  email_taken_def row_of_def save_def account_of_def get_user_def db_inv_def emails_clean_def

section \<open>Properties of save\<close>

lemma email_taken_iff:
  "email_taken d ex e \<longleftrightarrow> (\<exists>(i, r) \<in> set (rows d). email r = e \<and> Some i \<noteq> ex)"
  by (simp add: email_taken_def list_ex_iff)

lemma email_row_of [simp]: "email (row_of u) = email u"
  by (simp add: row_of_def)

text \<open>
  One table update keeps the invariant when no other row holds the new row's address
  and the counter stays above every key.
\<close>

lemma db_inv_update:
  assumes inv: "db_inv d"
    and free: "\<forall>(j, r) \<in> set (rows d). j \<noteq> i \<longrightarrow> email r \<noteq> email r'"
    and bound: "i \<le> n" "seq d \<le> n"
  shows "db_inv (d\<lparr>rows := AList.update i r' (rows d), seq := n\<rparr>)"
proof -
  let ?f = "\<lambda>(i, r). email r"
  have keys: "distinct (map fst (AList.update i r' (rows d)))"
    using inv by (simp add: db_inv_def distinct_update)
  have "\<forall>p \<in> set (rows d). fst p \<noteq> i \<longrightarrow> ?f p \<noteq> ?f (i, r')"
    using free by auto
  then have emails: "distinct (map ?f (AList.update i r' (rows d)))"
    using inv by (intro distinct_map_update) (simp_all add: db_inv_def)
  have "\<forall>p \<in> set (rows d). fst p \<le> n"
    using inv bound by (auto simp: db_inv_def list_all_iff)
  then have "\<forall>p \<in> set (AList.update i r' (rows d)). fst p \<le> n"
    using bound(1) by (rule update_keys_bounded)
  with keys emails show ?thesis
    by (auto simp: db_inv_def list_all_iff)
qed

lemma db_inv_key_bound: "db_inv d \<Longrightarrow> map_of (rows d) i = Some r \<Longrightarrow> i \<le> seq d"
  by (auto simp: db_inv_def list_all_iff dest: map_of_SomeD)

lemma db_inv_fresh_key: "db_inv d \<Longrightarrow> Suc (seq d) \<notin> fst ` set (rows d)"
  by (auto simp: db_inv_def list_all_iff)

lemma save_db_inv:
  assumes "db_inv d" and "save d u = Inr (d', u')"
  shows "db_inv d'"
proof (cases "pk u")
  case None
  with assms show ?thesis
    by (auto simp: save_def email_taken_iff Let_def intro!: db_inv_update split: if_splits)
next
  case (Some i)
  show ?thesis
  proof (cases "map_of (rows d) i")
    case None
    with Some assms show ?thesis
      by (auto simp: save_def email_taken_iff intro!: db_inv_update split: if_splits)
  next
    case (Some r)
    have "i \<le> seq d" using assms(1) Some by (rule db_inv_key_bound)
    from Some \<open>pk u = Some i\<close> assms(2)
    have d': "d' = d\<lparr>rows := AList.update i (row_of u) (rows d)\<rparr>"
      and free: "\<not> email_taken d (Some i) (email u)"
      by (auto simp: save_def split: if_splits)
    have "db_inv (d\<lparr>rows := AList.update i (row_of u) (rows d), seq := seq d\<rparr>)"
      using assms(1) free \<open>i \<le> seq d\<close> by (intro db_inv_update) (auto simp: email_taken_iff)
    then show ?thesis using d' by simp
  qed
qed

lemma save_emails_clean:
  assumes "emails_clean d" and "lower (email u) = email u" and "email u \<noteq> []"
    and "save d u = Inr (d', u')"
  shows "emails_clean d'"
proof -
  have "rows d' = AList.update (the (pk u')) (row_of u) (rows d)"
    using assms(4) by (auto simp: save_def Let_def split: option.splits if_splits)
  then show ?thesis
    using assms(1-3) set_update_subset [of "the (pk u')" "row_of u" "rows d"]
    by (fastforce simp: emails_clean_def list_all_iff)
qed

lemma save_Inl: "save d u = Inl err \<Longrightarrow> err = unique_email_violation"
  by (auto simp: save_def Let_def split: option.splits if_splits)

text \<open>
  A successful save returns the instance with its primary key filled in, and the
  table maps that key to the instance's row; the key is the next counter value for a
  new instance and the instance's own key otherwise.
\<close>

lemma save_Inr:
  assumes "save d u = Inr (d', u')"
  shows "\<exists>i. pk u' = Some i \<and> u' = u\<lparr>pk := Some i\<rparr>
    \<and> rows d' = AList.update i (row_of u) (rows d)
    \<and> \<not> email_taken d (Some i) (email u)
    \<and> i = (case pk u of None \<Rightarrow> Suc (seq d) | Some j \<Rightarrow> j)"
  using assms by (cases "pk u") (auto simp: save_def Let_def email_taken_iff split: option.splits if_splits)

lemma save_seq: "save d u = Inr (d', u') \<Longrightarrow> pk u = None \<Longrightarrow> seq d' = Suc (seq d)"
  by (auto simp: save_def Let_def split: if_splits)

lemma save_None_iff:
  "pk u = None \<Longrightarrow> save d u = Inl unique_email_violation \<longleftrightarrow> email_taken d None (email u)"
  by (simp add: save_def Let_def)

lemma save_existing:
  assumes "pk u = Some i" and "map_of (rows d) i = Some r"
    and "\<not> email_taken d (Some i) (email u)"
  shows "save d u = Inr (d\<lparr>rows := AList.update i (row_of u) (rows d)\<rparr>, u)"
  using assms by (simp add: save_def)

text \<open>After a save, no other row holds the saved address.\<close>

lemma save_email_free:
  assumes "save d u = Inr (d', u')" and "pk u' = Some i"
  shows "\<not> email_taken d' (Some i) (email u')"
proof -
  from save_Inr [OF assms(1)] assms(2) have rows: "rows d' = AList.update i (row_of u) (rows d)"
    and free: "\<not> email_taken d (Some i) (email u)" and u': "u' = u\<lparr>pk := Some i\<rparr>"
    by auto
  have "\<forall>(j, r) \<in> set (rows d'). j \<noteq> i \<longrightarrow> email r \<noteq> email u"
  proof (intro ballI impI, clarify)
    fix j r assume jr: "(j, r) \<in> set (rows d')" and "j \<noteq> i" and e: "email r = email u"
    have "(j, r) \<in> set (rows d)"
      using jr set_update_subset [of i "row_of u" "rows d"] rows \<open>j \<noteq> i\<close> by auto
    with free e \<open>j \<noteq> i\<close> show False by (auto simp: email_taken_iff)
  qed
  with u' show ?thesis by (auto simp: email_taken_iff)
qed

lemma account_of_row_of [simp]: "account_of i (row_of u) = u\<lparr>pk := Some i, is_staff := None\<rparr>"
  by (cases u) (simp add: account_of_def row_of_def)

lemma get_user_saved:
  assumes "map_of (rows d) i = Some (row_of u)"
  shows "get_user d i = Some (u\<lparr>pk := Some i, is_staff := None\<rparr>)"
  using assms by (simp add: get_user_def)

lemma get_user_other:
  "j \<noteq> i \<Longrightarrow> rows d' = AList.update i r (rows d) \<Longrightarrow> get_user d' j = get_user d j"
  by (simp add: get_user_def update_conv')

lemma get_user_after_save:
  assumes "save d u = Inr (d', u')" and "pk u' = Some i"
  shows "get_user d' i = Some (u'\<lparr>is_staff := None\<rparr>)"
    and "j \<noteq> i \<Longrightarrow> get_user d' j = get_user d j"
proof -
  from save_Inr [OF assms(1)] assms(2)
  have rows: "rows d' = AList.update i (row_of u) (rows d)" and u': "u' = u\<lparr>pk := Some i\<rparr>"
    by auto
  then have "map_of (rows d') i = Some (row_of u)" by (simp add: update_conv')
  then show "get_user d' i = Some (u'\<lparr>is_staff := None\<rparr>)"
    using u' by (simp add: get_user_saved)
  show "j \<noteq> i \<Longrightarrow> get_user d' j = get_user d j" using rows by (simp add: get_user_other)
qed

lemma new_user_Inr:
  assumes "new_user e kw = Inr u"
  shows "kw_unexpected kw = [] \<and> email u = e \<and> pk u = kw_id kw \<and> is_staff u = None
    \<and> first_name u = value_or [] (kw_first_name kw) \<and> last_name u = value_or [] (kw_last_name kw)
    \<and> is_active u = value_or True (kw_is_active kw) \<and> is_admin u = value_or False (kw_is_admin kw)
    \<and> is_superuser u = value_or False (kw_is_superuser kw)
    \<and> last_login u = value_or None (kw_last_login kw)"
  using assms by (auto simp: new_user_def split: if_splits)

lemma set_password_fields [simp]:
  "password (set_password H rnd raw u) = make_password H rnd raw"
  "email (set_password H rnd raw u) = email u"
  "pk (set_password H rnd raw u) = pk u"
  "is_staff (set_password H rnd raw u) = is_staff u"
  "first_name (set_password H rnd raw u) = first_name u"
  "last_name (set_password H rnd raw u) = last_name u"
  "is_active (set_password H rnd raw u) = is_active u"
  "is_admin (set_password H rnd raw u) = is_admin u"
  "is_superuser (set_password H rnd raw u) = is_superuser u"
  "last_login (set_password H rnd raw u) = last_login u"
  by (simp_all add: set_password_def)

end
