(* ===== verification/Manager.thy ===== *)
theory Manager
  imports Account
begin

text \<open>
  \<^verbatim>\<open>UserAccountManager\<close> (src/users/models.py, lines 5--39): the two factory
  methods. \<open>create_user\<close> validates the address, canonicalises it
  (\<open>Email.clean_email\<close>), builds the instance (\<open>Account.new_user\<close>), sets the
  password and inserts the row (\<open>Account.save\<close>); \<open>create_superuser\<close> runs it and
  saves the instance a second time with the two flags of lines 36--37. The table
  \<open>db\<close> stands for \<^verbatim>\<open>self._db\<close>; the hasher and the random string are the
  environment of \<^verbatim>\<open>set_password\<close>. The lemmas give the result of each method on
  every branch (missing address, unknown keyword, duplicate address, success), the
  state it leaves, and what the stored account can do afterwards.
\<close>

definition email_required_msg :: string where
  "email_required_msg = ''Users must have an email address''"

definition create_user :: "hasher \<Rightarrow> rnd_str \<Rightarrow> db \<Rightarrow> string option \<Rightarrow> string option \<Rightarrow>
    extra_fields \<Rightarrow> error + (db \<times> user_account)" where
  "create_user H rnd d email_arg raw_password kw =
    (case email_arg of
       None \<Rightarrow> Inl (ValueError email_required_msg)
     | Some e \<Rightarrow>
         if e = [] then Inl (ValueError email_required_msg)
         else (case new_user (clean_email e) kw of
                 Inl err \<Rightarrow> Inl err
               | Inr user \<Rightarrow> save d (set_password H rnd raw_password user)))"

definition create_superuser :: "hasher \<Rightarrow> rnd_str \<Rightarrow> db \<Rightarrow> string option \<Rightarrow> string option \<Rightarrow>
    extra_fields \<Rightarrow> error + (db \<times> user_account)" where
  "create_superuser H rnd d email_arg raw_password kw =
    (case create_user H rnd d email_arg raw_password kw of
       Inl err \<Rightarrow> Inl err
     | Inr (d1, user) \<Rightarrow> save d1 (user\<lparr>is_staff := Some True\<rparr>\<lparr>is_superuser := True\<rparr>))"

lemmas [eval_simps] = email_required_msg_def create_user_def create_superuser_def

section \<open>Unfolding a successful call\<close>

lemma create_user_InrE:
  assumes "create_user H rnd d email_arg pw kw = Inr (d', u)"
  obtains e u0 where "email_arg = Some e" "e \<noteq> []" "new_user (clean_email e) kw = Inr u0"
    "save d (set_password H rnd pw u0) = Inr (d', u)"
  using assms by (auto simp: create_user_def split: option.splits if_splits sum.splits)

lemma create_user_Inr:
  assumes "create_user H rnd d email_arg pw kw = Inr (d', u)"
  shows "\<exists>e i. email_arg = Some e \<and> e \<noteq> [] \<and> pk u = Some i
    \<and> i = value_or (Suc (seq d)) (kw_id kw) \<and> is_staff u = None
    \<and> email u = clean_email e \<and> password u = make_password H rnd pw
    \<and> first_name u = value_or [] (kw_first_name kw) \<and> last_name u = value_or [] (kw_last_name kw)
    \<and> is_active u = value_or True (kw_is_active kw) \<and> is_admin u = value_or False (kw_is_admin kw)
    \<and> is_superuser u = value_or False (kw_is_superuser kw)
    \<and> last_login u = value_or None (kw_last_login kw)
    \<and> rows d' = AList.update i (row_of u) (rows d)
    \<and> \<not> email_taken d (Some i) (email u)"
proof -
  obtain e u0 where e: "email_arg = Some e" "e \<noteq> []" and nu: "new_user (clean_email e) kw = Inr u0"
    and sv: "save d (set_password H rnd pw u0) = Inr (d', u)"
    using assms by (rule create_user_InrE)
  from save_Inr [OF sv] obtain i where i: "pk u = Some i"
    "u = (set_password H rnd pw u0)\<lparr>pk := Some i\<rparr>"
    "rows d' = AList.update i (row_of (set_password H rnd pw u0)) (rows d)"
    "\<not> email_taken d (Some i) (email (set_password H rnd pw u0))"
    "i = (case pk (set_password H rnd pw u0) of None \<Rightarrow> Suc (seq d) | Some j \<Rightarrow> j)"
    by blast
  have "row_of (set_password H rnd pw u0) = row_of u" using i(2) by (simp add: row_of_def)
  with i new_user_Inr [OF nu] e show ?thesis by (cases "kw_id kw") auto
qed

lemma create_user_valid:
  assumes "e \<noteq> []" and "kw_unexpected kw = []"
  obtains u0 where "email u0 = clean_email e" and "pk u0 = kw_id kw"
    and "create_user H rnd d (Some e) pw kw = save d (set_password H rnd pw u0)"
    and "is_staff u0 = None"
proof (rule that [of "projr (new_user (clean_email e) kw)"])
  show "email (projr (new_user (clean_email e) kw)) = clean_email e"
    and "pk (projr (new_user (clean_email e) kw)) = kw_id kw"
    and "create_user H rnd d (Some e) pw kw =
      save d (set_password H rnd pw (projr (new_user (clean_email e) kw)))"
    and "is_staff (projr (new_user (clean_email e) kw)) = None"
    using assms by (simp_all add: create_user_def new_user_def)
qed

lemma create_user_row:
  assumes "create_user H rnd d email_arg pw kw = Inr (d', u)"
  shows "\<exists>i. pk u = Some i \<and> map_of (rows d') i = Some (row_of u)"
  using create_user_Inr [OF assms] by (auto simp: update_conv')

lemma create_user_email_free:
  assumes "create_user H rnd d email_arg pw kw = Inr (d', u)" and "pk u = Some i"
  shows "\<not> email_taken d' (Some i) (email u)"
proof -
  obtain e u0 where "save d (set_password H rnd pw u0) = Inr (d', u)"
    using assms(1) by (rule create_user_InrE)
  then show ?thesis using assms(2) by (rule save_email_free)
qed

lemma create_user_password:
  "create_user H rnd d email_arg pw kw = Inr (d', u) \<Longrightarrow> password u = make_password H rnd pw"
  using create_user_Inr by blast

lemma create_user_new_row:
  assumes "e \<noteq> []" and "kw_unexpected kw = []" and "kw_id kw = None"
  shows "(create_user H rnd d (Some e) pw kw = Inl unique_email_violation \<longleftrightarrow>
      email_taken d None (clean_email e))
    \<and> (\<forall>err. create_user H rnd d (Some e) pw kw = Inl err \<longrightarrow> err = unique_email_violation)"
proof -
  obtain u0 where "email u0 = clean_email e" and "pk u0 = kw_id kw"
    and call: "create_user H rnd d (Some e) pw kw = save d (set_password H rnd pw u0)"
    and "is_staff u0 = None"
    using assms(1,2) by (rule create_user_valid)
  with assms(3) show ?thesis by (auto simp: save_None_iff dest: save_Inl)
qed

lemma create_superuser_Inr:
  assumes "create_superuser H rnd d e pw kw = Inr (d', u)"
  shows "\<exists>d1 u1 i. create_user H rnd d e pw kw = Inr (d1, u1) \<and> pk u1 = Some i
    \<and> u = u1\<lparr>is_staff := Some True, is_superuser := True\<rparr>
    \<and> rows d' = AList.update i (row_of u) (rows d1)"
proof -
  from assms obtain d1 u1 where cu: "create_user H rnd d e pw kw = Inr (d1, u1)"
    and sv: "save d1 (u1\<lparr>is_staff := Some True\<rparr>\<lparr>is_superuser := True\<rparr>) = Inr (d', u)"
    by (auto simp: create_superuser_def split: sum.splits)
  from create_user_Inr [OF cu] obtain i where i: "pk u1 = Some i" by blast
  from save_Inr [OF sv] i have "u = u1\<lparr>is_staff := Some True, is_superuser := True\<rparr>"
    and "rows d' = AList.update i (row_of (u1\<lparr>is_staff := Some True\<rparr>\<lparr>is_superuser := True\<rparr>)) (rows d1)"
    by auto
  with cu i show ?thesis by auto
qed

section \<open>Branches of create_user\<close>

text \<open>C1: a missing or empty address raises \<^verbatim>\<open>ValueError\<close> and touches nothing.\<close>

theorem create_user_requires_email:
  "create_user H rnd d None pw kw = Inl (ValueError email_required_msg)
   \<and> create_user H rnd d (Some []) pw kw = Inl (ValueError email_required_msg)"
  by (simp add: create_user_def)

text \<open>
  C2: a successful call without an explicit primary key inserts exactly one row,
  under the next counter value, holding the canonical address, the hashed password
  and the flags of the keyword arguments or their defaults; every other row is
  unchanged.
\<close>

theorem create_user_stores:
  assumes "create_user H rnd d (Some e) pw kw = Inr (d', u)" and "kw_id kw = None"
  shows "pk u = Some (Suc (seq d)) \<and> seq d' = Suc (seq d) \<and> get_user d' (Suc (seq d)) = Some u
    \<and> email u = clean_email e \<and> password u = make_password H rnd pw
    \<and> is_active u = value_or True (kw_is_active kw) \<and> is_admin u = value_or False (kw_is_admin kw)
    \<and> is_superuser u = value_or False (kw_is_superuser kw)
    \<and> (\<forall>j. j \<noteq> Suc (seq d) \<longrightarrow> get_user d' j = get_user d j)"
proof -
  obtain e' u0 where nu: "new_user (clean_email e') kw = Inr u0"
    and sv: "save d (set_password H rnd pw u0) = Inr (d', u)"
    using assms(1) by (rule create_user_InrE)
  have pk0: "pk (set_password H rnd pw u0) = None"
    using new_user_Inr [OF nu] assms(2) by simp
  have seq: "seq d' = Suc (seq d)" using sv pk0 by (rule save_seq)
  from create_user_Inr [OF assms(1)] assms(2) have fields: "pk u = Some (Suc (seq d))"
    "is_staff u = None" "email u = clean_email e" "password u = make_password H rnd pw"
    "is_active u = value_or True (kw_is_active kw)" "is_admin u = value_or False (kw_is_admin kw)"
    "is_superuser u = value_or False (kw_is_superuser kw)"
    by auto
  have "get_user d' (Suc (seq d)) = Some (u\<lparr>is_staff := None\<rparr>)"
    and "\<forall>j. j \<noteq> Suc (seq d) \<longrightarrow> get_user d' j = get_user d j"
    using get_user_after_save [OF sv fields(1)] by auto
  with seq fields show ?thesis by simp
qed

theorem create_user_stores_witness:
  "\<exists>d' u. create_user plain_hasher ''salt'' empty_db (Some ''Foo@Example.COM'') (Some ''pw'')
      no_extra_fields = Inr (d', u) \<and> kw_id no_extra_fields = None
    \<and> get_user d' 1 = Some u \<and> email u = ''foo@example.com''"
proof -
  have "\<exists>d' u. create_user plain_hasher ''salt'' empty_db (Some ''Foo@Example.COM'') (Some ''pw'')
      no_extra_fields = Inr (d', u)"
    by (simp add: eval_simps)
  then obtain d' u where r: "create_user plain_hasher ''salt'' empty_db (Some ''Foo@Example.COM'')
      (Some ''pw'') no_extra_fields = Inr (d', u)" by blast
  have k: "kw_id no_extra_fields = None" by (simp add: no_extra_fields_def)
  have c: "clean_email ''Foo@Example.COM'' = ''foo@example.com''" by (simp add: eval_simps)
  from create_user_stores [OF r k] c have "get_user d' 1 = Some u \<and> email u = ''foo@example.com''"
    by (simp add: empty_db_def)
  with r k show ?thesis by blast
qed

text \<open>
  C3: once an address is stored, a second call with an address that differs from it
  at most in letter case fails with the database's \<^verbatim>\<open>IntegrityError\<close>,
  whatever the password and keyword arguments (short of an explicit primary key).
\<close>

theorem create_user_rejects_duplicate:
  assumes first: "create_user H rnd d (Some e1) pw1 kw1 = Inr (d1, u1)"
    and same: "lower e2 = lower e1" and ne: "e2 \<noteq> []"
    and kw2: "kw_unexpected kw2 = []" "kw_id kw2 = None"
  shows "create_user H' rnd' d1 (Some e2) pw2 kw2 = Inl unique_email_violation"
proof -
  from create_user_Inr [OF first] obtain i where i: "pk u1 = Some i"
    and rows: "rows d1 = AList.update i (row_of u1) (rows d)" and em: "email u1 = clean_email e1"
    by auto
  have "(i, row_of u1) \<in> set (rows d1)"
    using rows by (simp add: map_of_SomeD update_conv')
  moreover have "clean_email e2 = clean_email e1"
    using same by (simp add: clean_email_alt)
  ultimately have "\<exists>(j, r) \<in> set (rows d1). email r = clean_email e2 \<and> Some j \<noteq> None"
    using em by (intro bexI [of _ "(i, row_of u1)"]) simp_all
  then have taken: "email_taken d1 None (clean_email e2)" by (simp add: email_taken_iff)
  obtain u0 where "email u0 = clean_email e2" and "pk u0 = kw_id kw2"
    and call: "create_user H' rnd' d1 (Some e2) pw2 kw2 = save d1 (set_password H' rnd' pw2 u0)"
    and "is_staff u0 = None"
    using ne kw2(1) by (rule create_user_valid)
  with taken kw2(2) show ?thesis by (simp add: save_None_iff)
qed

theorem create_user_rejects_duplicate_witness:
  "\<exists>d1 u1. create_user plain_hasher ''s1'' empty_db (Some ''Ann@Mail.ORG'') (Some ''a'')
      no_extra_fields = Inr (d1, u1)
    \<and> lower ''ann@mail.org'' = lower ''Ann@Mail.ORG'' \<and> ''ann@mail.org'' \<noteq> []
    \<and> kw_unexpected no_extra_fields = [] \<and> kw_id no_extra_fields = None
    \<and> create_user plain_hasher ''s2'' d1 (Some ''ann@mail.org'') None no_extra_fields
        = Inl unique_email_violation"
proof -
  have "\<exists>d1 u1. create_user plain_hasher ''s1'' empty_db (Some ''Ann@Mail.ORG'') (Some ''a'')
      no_extra_fields = Inr (d1, u1)"
    by (simp add: eval_simps)
  then obtain d1 u1 where r: "create_user plain_hasher ''s1'' empty_db (Some ''Ann@Mail.ORG'')
      (Some ''a'') no_extra_fields = Inr (d1, u1)" by blast
  have l: "lower ''ann@mail.org'' = lower ''Ann@Mail.ORG''" by (simp add: eval_simps)
  have k: "kw_unexpected no_extra_fields = []" "kw_id no_extra_fields = None"
    by (simp_all add: no_extra_fields_def)
  have "''ann@mail.org'' \<noteq> []" by simp
  with create_user_rejects_duplicate [OF r l _ k] r l k show ?thesis by blast
qed

text \<open>
  C12: a keyword argument that names no field raises the constructor's
  \<^verbatim>\<open>TypeError\<close>, listing the unknown names, before anything is saved.
\<close>

theorem create_user_unexpected_kwarg:
  assumes "e \<noteq> []" and "kw_unexpected kw \<noteq> []"
  shows "create_user H rnd d (Some e) pw kw = Inl (TypeError (kw_unexpected kw))"
  using assms by (simp add: create_user_def new_user_def)

theorem create_user_unexpected_kwarg_witness:
  "''a@b.c'' \<noteq> [] \<and> kw_unexpected (no_extra_fields\<lparr>kw_unexpected := [''is_staff'']\<rparr>) \<noteq> []
   \<and> create_user plain_hasher ''s'' empty_db (Some ''a@b.c'') None
       (no_extra_fields\<lparr>kw_unexpected := [''is_staff'']\<rparr>) = Inl (TypeError [''is_staff''])"
  using create_user_unexpected_kwarg [of "''a@b.c''" "no_extra_fields\<lparr>kw_unexpected := [''is_staff'']\<rparr>"
      plain_hasher "''s''" empty_db None]
  by simp

section \<open>Passwords of the created account\<close>

text \<open>
  C8: created without a password, the account has no usable password and no
  candidate password authenticates it.
\<close>

theorem create_user_unusable_password:
  assumes "create_user H rnd d e None kw = Inr (d', u)"
  shows "\<not> has_usable_password u \<and> (\<forall>cand. \<not> user_check_password H cand u)"
  using create_user_password [OF assms]
  by (simp add: has_usable_password_def user_check_password_def)

theorem create_user_unusable_password_witness:
  "\<exists>d' u. create_user plain_hasher ''r'' empty_db (Some ''a@b.com'') None no_extra_fields = Inr (d', u)
     \<and> \<not> user_check_password plain_hasher (Some ''!r'') u"
proof -
  have "\<exists>d' u. create_user plain_hasher ''r'' empty_db (Some ''a@b.com'') None no_extra_fields = Inr (d', u)"
    by (simp add: eval_simps)
  then obtain d' u where r: "create_user plain_hasher ''r'' empty_db (Some ''a@b.com'') None
      no_extra_fields = Inr (d', u)" by blast
  with create_user_unusable_password [OF r] show ?thesis by blast
qed

text \<open>C9: created with a password, the account accepts exactly that password.\<close>

theorem create_user_password_checks:
  assumes "hasher_ok H" and "create_user H rnd d e (Some p) kw = Inr (d', u)"
  shows "has_usable_password u \<and> user_check_password H (Some p) u"
proof -
  from assms(2) have pw: "password u = make_password H rnd (Some p)" by (rule create_user_password)
  have "is_password_usable (password u)"
    using pw assms(1) by (simp add: make_password_usable_iff)
  moreover have "check_password H (Some p) (password u)"
    using pw assms(1) by (simp add: check_make_password_Some hasher_ok_def)
  ultimately show ?thesis by (simp add: has_usable_password_def user_check_password_def)
qed

theorem create_user_password_checks_witness:
  "\<exists>d' u. hasher_ok plain_hasher
     \<and> create_user plain_hasher ''r'' empty_db (Some ''a@b.com'') (Some ''pw'') no_extra_fields = Inr (d', u)
     \<and> user_check_password plain_hasher (Some ''pw'') u"
proof -
  have h: "hasher_ok plain_hasher" by (simp add: eval_simps)
  have "\<exists>d' u. create_user plain_hasher ''r'' empty_db (Some ''a@b.com'') (Some ''pw'') no_extra_fields
      = Inr (d', u)"
    by (simp add: eval_simps)
  then obtain d' u where r: "create_user plain_hasher ''r'' empty_db (Some ''a@b.com'') (Some ''pw'')
      no_extra_fields = Inr (d', u)" by blast
  with h create_user_password_checks [OF h r] show ?thesis by blast
qed

text \<open>C10: for a collision-free hasher, no other password authenticates the account.\<close>

theorem create_user_rejects_other_password:
  assumes "hasher_injective H" and "create_user H rnd d e (Some p) kw = Inr (d', u)"
    and "q \<noteq> p"
  shows "\<not> user_check_password H (Some q) u"
  using assms(1,3) create_user_password [OF assms(2)]
  by (auto simp: user_check_password_def check_password_def make_password_def hasher_injective_def)

theorem create_user_rejects_other_password_witness:
  "\<exists>d' u. hasher_injective plain_hasher
     \<and> create_user plain_hasher ''r'' empty_db (Some ''a@b.com'') (Some ''pw'') no_extra_fields = Inr (d', u)
     \<and> ''guess'' \<noteq> ''pw'' \<and> \<not> user_check_password plain_hasher (Some ''guess'') u"
proof -
  have h: "hasher_injective plain_hasher" by (simp add: eval_simps)
  have "\<exists>d' u. create_user plain_hasher ''r'' empty_db (Some ''a@b.com'') (Some ''pw'') no_extra_fields
      = Inr (d', u)"
    by (simp add: eval_simps)
  then obtain d' u where r: "create_user plain_hasher ''r'' empty_db (Some ''a@b.com'') (Some ''pw'')
      no_extra_fields = Inr (d', u)" by blast
  have q: "''guess'' \<noteq> ''pw''" by simp
  with h r create_user_rejects_other_password [OF h r q] show ?thesis by blast
qed

text \<open>
  C19: a well-formed call without an explicit primary key fails exactly when the
  canonical address is already stored, and then only with the database's
  \<^verbatim>\<open>IntegrityError\<close>.
\<close>

theorem create_user_fails_iff_taken:
  assumes "e \<noteq> []" and "kw_unexpected kw = []" and "kw_id kw = None"
  shows "(\<exists>err. create_user H rnd d (Some e) pw kw = Inl err) \<longleftrightarrow> email_taken d None (clean_email e)"
  using create_user_new_row [OF assms, of H rnd d pw] by blast

theorem create_user_fails_iff_taken_witness:
  "''x@y.z'' \<noteq> [] \<and> kw_unexpected no_extra_fields = [] \<and> kw_id no_extra_fields = None
   \<and> \<not> (\<exists>err. create_user plain_hasher ''s'' empty_db (Some ''x@y.z'') None no_extra_fields = Inl err)"
proof -
  have k: "kw_unexpected no_extra_fields = []" "kw_id no_extra_fields = None"
    by (simp_all add: no_extra_fields_def)
  have "\<not> email_taken empty_db None (clean_email ''x@y.z'')" by (simp add: eval_simps)
  with create_user_fails_iff_taken [of "''x@y.z''" no_extra_fields plain_hasher "''s''" empty_db None] k
  show ?thesis by simp
qed

text \<open>
  C11: without keyword arguments the account is active, neither admin nor superuser,
  has no last login, and its first and last name are empty strings: the
  \<^verbatim>\<open>REQUIRED_FIELDS\<close> of the model are not enforced by the factory.
\<close>

theorem create_user_defaults:
  assumes "create_user H rnd d e pw no_extra_fields = Inr (d', u)"
  shows "is_active u \<and> \<not> is_admin u \<and> \<not> is_superuser u \<and> first_name u = [] \<and> last_name u = []
    \<and> last_login u = None \<and> pk u = Some (Suc (seq d))"
  using create_user_Inr [OF assms] by (auto simp: no_extra_fields_def)

theorem create_user_defaults_witness:
  "\<exists>d' u. create_user plain_hasher ''s'' empty_db (Some ''a@b.com'') None no_extra_fields = Inr (d', u)
     \<and> is_active u \<and> \<not> is_admin u \<and> first_name u = []"
proof -
  have "\<exists>d' u. create_user plain_hasher ''s'' empty_db (Some ''a@b.com'') None no_extra_fields = Inr (d', u)"
    by (simp add: eval_simps)
  then obtain d' u where r: "create_user plain_hasher ''s'' empty_db (Some ''a@b.com'') None
      no_extra_fields = Inr (d', u)" by blast
  with create_user_defaults [OF r] show ?thesis by blast
qed

text \<open>
  C18: the factory checks only that the address is non-empty. An address without
  \<open>@\<close>, white space alone included, is stored lower-cased and otherwise verbatim
  (\<^verbatim>\<open>normalize_email\<close> strips only addresses that contain \<open>@\<close>).
\<close>

theorem create_user_no_format_check:
  assumes "e \<noteq> []" and "CHR ''@'' \<notin> set e"
    and "kw_unexpected kw = []" and "kw_id kw = None" and "\<not> email_taken d None (lower e)"
  shows "\<exists>d' u. create_user H rnd d (Some e) pw kw = Inr (d', u) \<and> email u = lower e"
proof -
  have clean: "clean_email e = lower e" using assms(2) by (simp add: clean_email_def normalize_email_no_at)
  have notl: "\<forall>err. create_user H rnd d (Some e) pw kw \<noteq> Inl err"
    using create_user_new_row [OF assms(1,3,4), of H rnd d pw] assms(5) clean by auto
  then obtain d' u where r: "create_user H rnd d (Some e) pw kw = Inr (d', u)"
    by (metis sum.exhaust surj_pair)
  with create_user_Inr [OF r] clean show ?thesis by auto
qed

theorem create_user_no_format_check_witness:
  "\<exists>d' u. create_user plain_hasher ''s'' empty_db (Some '' '') None no_extra_fields = Inr (d', u)
     \<and> email u = '' ''"
proof -
  have h: "'' '' \<noteq> []" "CHR ''@'' \<notin> set '' ''" "kw_unexpected no_extra_fields = []"
    "kw_id no_extra_fields = None" "\<not> email_taken empty_db None (lower '' '')"
    by (simp_all add: eval_simps)
  have "lower '' '' = '' ''" by (simp add: eval_simps)
  with create_user_no_format_check [OF h, of plain_hasher "''s''" None] show ?thesis by simp
qed

text \<open>
  C17: an explicit primary key of an existing row turns the insert into an
  \<^verbatim>\<open>UPDATE\<close>: the call succeeds and the row of that key, another person's
  account, is replaced by the new one.
\<close>

theorem create_user_explicit_pk_overwrites:
  assumes "e \<noteq> []" and "kw_unexpected kw = []" and "kw_id kw = Some i"
    and "map_of (rows d) i = Some r" and "\<not> email_taken d (Some i) (clean_email e)"
  shows "\<exists>d' u. create_user H rnd d (Some e) pw kw = Inr (d', u)
    \<and> get_user d' i = Some u \<and> email u = clean_email e"
proof -
  obtain u0 where em: "email u0 = clean_email e" and pk0: "pk u0 = kw_id kw"
    and call: "create_user H rnd d (Some e) pw kw = save d (set_password H rnd pw u0)"
    and st: "is_staff u0 = None"
    using assms(1,2) by (rule create_user_valid)
  let ?u = "set_password H rnd pw u0"
  have sv: "save d ?u = Inr (d\<lparr>rows := AList.update i (row_of ?u) (rows d)\<rparr>, ?u)"
    using assms(3-5) em pk0 by (intro save_existing) simp_all
  have "get_user (d\<lparr>rows := AList.update i (row_of ?u) (rows d)\<rparr>) i = Some ?u"
    using get_user_after_save(1) [OF sv] pk0 assms(3) st by (simp add: set_password_def)
  with call sv em show ?thesis by auto
qed

theorem create_user_explicit_pk_overwrites_witness:
  "\<exists>d1 u1 d2 u2.
     create_user plain_hasher ''s'' empty_db (Some ''alice@x.org'') (Some ''a'') no_extra_fields = Inr (d1, u1)
   \<and> create_user plain_hasher ''t'' d1 (Some ''mallory@x.org'') (Some ''m'')
       (no_extra_fields\<lparr>kw_id := Some 1\<rparr>) = Inr (d2, u2)
   \<and> get_user d1 1 = Some u1 \<and> get_user d2 1 = Some u2 \<and> email u2 = ''mallory@x.org''"
proof -
  have "\<exists>d1 u1. create_user plain_hasher ''s'' empty_db (Some ''alice@x.org'') (Some ''a'')
      no_extra_fields = Inr (d1, u1)"
    by (simp add: eval_simps)
  then obtain d1 u1 where r1: "create_user plain_hasher ''s'' empty_db (Some ''alice@x.org'')
      (Some ''a'') no_extra_fields = Inr (d1, u1)" by blast
  have rows1: "rows d1 = [(1, row_of u1)]"
    using create_user_Inr [OF r1] by (auto simp: no_extra_fields_def empty_db_def)
  have "pk u1 = Some 1" "is_staff u1 = None"
    using create_user_Inr [OF r1] by (auto simp: no_extra_fields_def empty_db_def)
  with rows1 have g1: "get_user d1 1 = Some u1" by (simp add: get_user_def)
  have em1: "email u1 = ''alice@x.org''"
    using create_user_Inr [OF r1] by (auto simp: eval_simps)
  have h: "''mallory@x.org'' \<noteq> []" "kw_unexpected (no_extra_fields\<lparr>kw_id := Some 1\<rparr>) = []"
    "kw_id (no_extra_fields\<lparr>kw_id := Some 1\<rparr>) = Some 1" "map_of (rows d1) 1 = Some (row_of u1)"
    "\<not> email_taken d1 (Some 1) (clean_email ''mallory@x.org'')"
    using rows1 em1 by (simp_all add: eval_simps)
  from create_user_explicit_pk_overwrites [OF h, of plain_hasher "''t''" "Some ''m''"]
  obtain d2 u2 where "create_user plain_hasher ''t'' d1 (Some ''mallory@x.org'') (Some ''m'')
      (no_extra_fields\<lparr>kw_id := Some 1\<rparr>) = Inr (d2, u2)" and "get_user d2 1 = Some u2"
    and "email u2 = clean_email ''mallory@x.org''" by blast
  moreover have "clean_email ''mallory@x.org'' = ''mallory@x.org''" by (simp add: eval_simps)
  ultimately show ?thesis using r1 g1 by auto
qed

section \<open>create_superuser\<close>

text \<open>
  C6: a successful \<^verbatim>\<open>create_superuser\<close> returns an instance with
  \<^verbatim>\<open>is_superuser\<close> and the attribute \<^verbatim>\<open>is_staff\<close> set, but the stored
  account, read back, has no \<^verbatim>\<open>is_staff\<close> at all and keeps \<^verbatim>\<open>is_admin\<close>
  as the keyword arguments gave it (\<^verbatim>\<open>False\<close> by default): the flag the model
  declares for admin-panel login is never set.
\<close>

theorem create_superuser_flags:
  assumes "create_superuser H rnd d e pw kw = Inr (d', u)"
  shows "is_superuser u \<and> is_staff u = Some True \<and> is_admin u = value_or False (kw_is_admin kw)
    \<and> (\<exists>i. pk u = Some i \<and> get_user d' i = Some (u\<lparr>is_staff := None\<rparr>))"
proof -
  from assms obtain d1 u1 where cu: "create_user H rnd d e pw kw = Inr (d1, u1)"
    and sv: "save d1 (u1\<lparr>is_staff := Some True\<rparr>\<lparr>is_superuser := True\<rparr>) = Inr (d', u)"
    by (auto simp: create_superuser_def split: sum.splits)
  from create_user_Inr [OF cu] obtain i where i: "pk u1 = Some i"
    and adm: "is_admin u1 = value_or False (kw_is_admin kw)" by auto
  from save_Inr [OF sv] i have u: "u = u1\<lparr>is_staff := Some True, is_superuser := True\<rparr>"
    and pku: "pk u = Some i" by auto
  have "get_user d' i = Some (u\<lparr>is_staff := None\<rparr>)" using sv pku by (rule get_user_after_save(1))
  with u adm pku show ?thesis by simp
qed

theorem create_superuser_flags_witness:
  "\<exists>d' u. create_superuser plain_hasher ''s'' empty_db (Some ''root@site.io'') (Some ''pw'')
      no_extra_fields = Inr (d', u)
    \<and> is_superuser u \<and> \<not> is_admin u \<and> get_user d' 1 = Some (u\<lparr>is_staff := None\<rparr>)"
proof -
  have "\<exists>d' u. create_superuser plain_hasher ''s'' empty_db (Some ''root@site.io'') (Some ''pw'')
      no_extra_fields = Inr (d', u)"
    by (simp add: eval_simps)
  then obtain d' u where r: "create_superuser plain_hasher ''s'' empty_db (Some ''root@site.io'')
      (Some ''pw'') no_extra_fields = Inr (d', u)" by blast
  from create_superuser_flags [OF r] obtain i where "is_superuser u" "\<not> is_admin u"
    "pk u = Some i" "get_user d' i = Some (u\<lparr>is_staff := None\<rparr>)"
    by (auto simp: no_extra_fields_def)
  moreover have "pk u = Some 1" using r by (auto simp: eval_simps)
  ultimately show ?thesis using r by auto
qed

text \<open>
  After a successful \<^verbatim>\<open>create_user\<close>, the second \<^verbatim>\<open>save()\<close> of
  \<^verbatim>\<open>create_superuser\<close> is an UPDATE of the new row that cannot fail: the row
  exists and its address is free outside it.
\<close>

lemma create_superuser_save:
  assumes "create_user H rnd d e pw kw = Inr (d1, u1)"
  obtains i where "pk u1 = Some i" and "map_of (rows d1) i = Some (row_of u1)"
    and "create_superuser H rnd d e pw kw = Inr (d1\<lparr>rows := AList.update i
           (row_of (u1\<lparr>is_staff := Some True\<rparr>\<lparr>is_superuser := True\<rparr>)) (rows d1)\<rparr>,
         u1\<lparr>is_staff := Some True\<rparr>\<lparr>is_superuser := True\<rparr>)"
proof -
  from create_user_row [OF assms] obtain i where i: "pk u1 = Some i"
    and row: "map_of (rows d1) i = Some (row_of u1)" by blast
  have free: "\<not> email_taken d1 (Some i) (email u1)" using assms i by (rule create_user_email_free)
  let ?v = "u1\<lparr>is_staff := Some True\<rparr>\<lparr>is_superuser := True\<rparr>"
  have "save d1 ?v = Inr (d1\<lparr>rows := AList.update i (row_of ?v) (rows d1)\<rparr>, ?v)"
    using i row free by (intro save_existing) simp_all
  with assms have "create_superuser H rnd d e pw kw
      = Inr (d1\<lparr>rows := AList.update i (row_of ?v) (rows d1)\<rparr>, ?v)"
    by (simp add: create_superuser_def)
  with i row show ?thesis by (rule that)
qed

text \<open>
  C7: the second \<^verbatim>\<open>save()\<close> of \<^verbatim>\<open>create_superuser\<close> never fails, so the
  method fails exactly when \<^verbatim>\<open>create_user\<close> does, with the same error, and never
  leaves a half-promoted account behind.
\<close>

theorem create_superuser_fails_iff:
  "create_superuser H rnd d e pw kw = Inl err \<longleftrightarrow> create_user H rnd d e pw kw = Inl err"
proof (cases "create_user H rnd d e pw kw")
  case (Inl err')
  then show ?thesis by (simp add: create_superuser_def)
next
  case (Inr r)
  then obtain d1 u1 where cu: "create_user H rnd d e pw kw = Inr (d1, u1)" by (cases r) auto
  show ?thesis by (rule create_superuser_save [OF cu]) (simp add: cu)
qed

section \<open>The factory as steps on the table\<close>

text \<open>
  Each method keeps the table invariant and the canonical form of the stored
  addresses; and neither creates a row with \<^verbatim>\<open>is_admin\<close> set unless the
  caller passes it.
\<close>

lemma create_user_invariants:
  assumes "db_inv d" and "emails_clean d" and "create_user H rnd d e pw kw = Inr (d', u)"
  shows "db_inv d' \<and> emails_clean d'"
proof -
  obtain e' u0 where "e = Some e'" and ne: "e' \<noteq> []" and nu: "new_user (clean_email e') kw = Inr u0"
    and sv: "save d (set_password H rnd pw u0) = Inr (d', u)"
    using assms(3) by (rule create_user_InrE)
  have em: "email u0 = clean_email e'"
    using new_user_Inr [OF nu] by simp
  have "db_inv d'" using assms(1) sv by (rule save_db_inv)
  moreover have "emails_clean d'"
    by (rule save_emails_clean [OF assms(2) _ _ sv]) (simp_all add: em ne)
  ultimately show ?thesis ..
qed

lemma create_user_email_clean:
  assumes "create_user H rnd d e pw kw = Inr (d', u)"
  shows "lower (email u) = email u \<and> email u \<noteq> []"
proof -
  from create_user_Inr [OF assms] obtain e' where "e' \<noteq> []" and "email u = clean_email e'"
    by blast
  then show ?thesis by simp
qed

lemma create_superuser_invariants:
  assumes "db_inv d" and "emails_clean d" and "create_superuser H rnd d e pw kw = Inr (d', u)"
  shows "db_inv d' \<and> emails_clean d'"
proof -
  from assms(3) obtain d1 u1 where cu: "create_user H rnd d e pw kw = Inr (d1, u1)"
    and sv: "save d1 (u1\<lparr>is_staff := Some True\<rparr>\<lparr>is_superuser := True\<rparr>) = Inr (d', u)"
    by (auto simp: create_superuser_def split: sum.splits)
  have inv1: "db_inv d1" and clean1: "emails_clean d1"
    using create_user_invariants [OF assms(1,2) cu] by simp_all
  have em: "lower (email u1) = email u1" "email u1 \<noteq> []"
    using create_user_email_clean [OF cu] by simp_all
  have "db_inv d'" using inv1 sv by (rule save_db_inv)
  moreover have "emails_clean d'"
    by (rule save_emails_clean [OF clean1 _ _ sv]) (simp_all add: em)
  ultimately show ?thesis ..
qed

lemma create_user_no_admin:
  assumes "create_user H rnd d e pw kw = Inr (d', u)" and "kw_is_admin kw = None"
    and "list_all (\<lambda>(i, r). \<not> is_admin r) (rows d)"
  shows "list_all (\<lambda>(i, r). \<not> is_admin r) (rows d') \<and> \<not> is_admin u"
proof -
  from create_user_Inr [OF assms(1)] obtain i where rows: "rows d' = AList.update i (row_of u) (rows d)"
    and adm: "is_admin u = value_or False (kw_is_admin kw)" by blast
  with assms(2) have "\<not> is_admin u" by simp
  then have "list_all (\<lambda>(i, r). \<not> is_admin r) (AList.update i (row_of u) (rows d))"
    using assms(3) by (intro list_all_update) (simp_all add: row_of_def)
  with rows \<open>\<not> is_admin u\<close> show ?thesis by simp
qed

lemma create_superuser_no_admin:
  assumes "create_superuser H rnd d e pw kw = Inr (d', u)" and "kw_is_admin kw = None"
    and "list_all (\<lambda>(i, r). \<not> is_admin r) (rows d)"
  shows "list_all (\<lambda>(i, r). \<not> is_admin r) (rows d')"
proof -
  from assms(1) obtain d1 u1 where cu: "create_user H rnd d e pw kw = Inr (d1, u1)"
    and sv: "save d1 (u1\<lparr>is_staff := Some True\<rparr>\<lparr>is_superuser := True\<rparr>) = Inr (d', u)"
    by (auto simp: create_superuser_def split: sum.splits)
  from create_user_no_admin [OF cu assms(2,3)]
  have d1: "list_all (\<lambda>(i, r). \<not> is_admin r) (rows d1)" and adm: "\<not> is_admin u1" by simp_all
  from save_Inr [OF sv] obtain i where rows: "rows d' = AList.update i
      (row_of (u1\<lparr>is_staff := Some True\<rparr>\<lparr>is_superuser := True\<rparr>)) (rows d1)" by blast
  have "list_all (\<lambda>(i, r). \<not> is_admin r) (AList.update i
      (row_of (u1\<lparr>is_staff := Some True\<rparr>\<lparr>is_superuser := True\<rparr>)) (rows d1))"
    using d1 adm by (intro list_all_update) (simp_all add: row_of_def)
  with rows show ?thesis by simp
qed

end
