(* ===== verification/Auth.thy ===== *)
theory Auth
  imports Manager
begin

text \<open>
  What the account table is for: logging in. \<^verbatim>\<open>USERNAME_FIELD = 'email'\<close>
  (src/users/models.py, line 59) makes the e-mail the login identifier, which Django's
  authentication reads through the manager the repository defines. Modelled here from
  Django: \<^verbatim>\<open>BaseUserManager.get_by_natural_key\<close> (a \<^verbatim>\<open>get\<close> on the
  \<^verbatim>\<open>USERNAME_FIELD\<close> column), \<^verbatim>\<open>ModelBackend.authenticate\<close> and
  \<^verbatim>\<open>user_can_authenticate\<close>, the admin site's \<^verbatim>\<open>has_permission\<close>
  (\<^verbatim>\<open>user.is_active and user.is_staff\<close>), and \<^verbatim>\<open>PermissionsMixin.has_perm\<close>
  with the permission backends abstract. The lemmas show that a created account logs
  in with its canonical address and password, which logins never raise, and what the
  admin site makes of the accounts the factory creates.
\<close>

text \<open>
  \<^verbatim>\<open>get_by_natural_key(username)\<close>: \<^verbatim>\<open>get(email=username)\<close>, an exact
  comparison on the column.
\<close>

definition get_by_natural_key :: "db \<Rightarrow> string \<Rightarrow> error + user_account" where
  "get_by_natural_key d username =
    (case filter (\<lambda>(i, r). get_username r = username) (rows d) of
       [] \<Rightarrow> Inl DoesNotExist
     | [(i, r)] \<Rightarrow> Inr (account_of i r)
     | _ \<Rightarrow> Inl MultipleObjectsReturned)"

definition user_can_authenticate :: "'a user_row_scheme \<Rightarrow> bool" where
  "user_can_authenticate u = is_active u"

text \<open>
  \<^verbatim>\<open>ModelBackend.authenticate(request, username, password)\<close>: \<^verbatim>\<open>None\<close>
  without both credentials or for an unknown user (\<^verbatim>\<open>DoesNotExist\<close> is caught),
  the user when the password matches and the account is active; any other exception of
  the query propagates.
\<close>

definition authenticate :: "hasher \<Rightarrow> db \<Rightarrow> string option \<Rightarrow> string option \<Rightarrow>
    error + user_account option" where
  "authenticate H d username raw_password =
    (case (username, raw_password) of
       (Some name, Some raw) \<Rightarrow>
         (case get_by_natural_key d name of
            Inl err \<Rightarrow> if err = DoesNotExist then Inr None else Inl err
          | Inr user \<Rightarrow>
              Inr (if user_check_password H (Some raw) user \<and> user_can_authenticate user
                   then Some user else None))
     | _ \<Rightarrow> Inr None)"

text \<open>
  \<^verbatim>\<open>AdminSite.has_permission\<close>: \<^verbatim>\<open>user.is_active and user.is_staff\<close>;
  reading an attribute the instance lacks raises \<^verbatim>\<open>AttributeError\<close>.
\<close>

definition admin_has_permission :: "user_account \<Rightarrow> error + bool" where
  "admin_has_permission u =
    (if \<not> is_active u then Inr False
     else (case is_staff u of
             None \<Rightarrow> Inl (AttributeError ''is_staff'')
           | Some b \<Rightarrow> Inr b))"

text \<open>
  \<^verbatim>\<open>PermissionsMixin.has_perm\<close>: an active superuser has every permission; for
  anyone else the configured backends decide (\<open>backend\<close>).
\<close>

definition has_perm :: "('a user_row_scheme \<Rightarrow> string \<Rightarrow> bool) \<Rightarrow> 'a user_row_scheme \<Rightarrow> string \<Rightarrow> bool" where
  "has_perm backend u perm = (if is_active u \<and> is_superuser u then True else backend u perm)"

lemmas [eval_simps] = get_by_natural_key_def user_can_authenticate_def authenticate_def
  admin_has_permission_def has_perm_def

section \<open>Looking an account up\<close>

lemma get_by_natural_key_Inr:
  "get_by_natural_key d name = Inr v \<Longrightarrow>
     \<exists>i r. filter (\<lambda>(i, r). email r = name) (rows d) = [(i, r)] \<and> v = account_of i r"
  by (auto simp: get_by_natural_key_def get_username_def split: list.splits)

lemma authenticate_Some:
  assumes "authenticate H d (Some name) (Some raw) = Inr (Some v)"
  shows "get_by_natural_key d name = Inr v \<and> user_check_password H (Some raw) v \<and> is_active v"
  using assms
  by (auto simp: authenticate_def user_can_authenticate_def split: sum.splits if_splits)

lemma create_user_lookup:
  assumes "db_inv d" and "create_user H rnd d (Some e) pw kw = Inr (d', u)"
  shows "get_by_natural_key d' (clean_email e) = Inr u"
proof -
  from create_user_Inr [OF assms(2)] obtain i where i: "pk u = Some i" and st: "is_staff u = None"
    and rows: "rows d' = AList.update i (row_of u) (rows d)" and em: "email u = clean_email e"
    and free: "\<not> email_taken d (Some i) (email u)"
    by blast
  have "filter (\<lambda>(j, r). get_username r = clean_email e) (rows d') = [(i, row_of u)]"
    unfolding rows using assms(1) free em
    by (intro filter_update_single) (auto simp: db_inv_def get_username_def email_taken_iff)
  then have "get_by_natural_key d' (clean_email e) = Inr (account_of i (row_of u))"
    by (simp add: get_by_natural_key_def)
  with i st show ?thesis by (cases u) simp
qed

lemma create_user_db_inv:
  assumes "db_inv d" and "create_user H rnd d e pw kw = Inr (d', u)"
  shows "db_inv d'"
proof -
  obtain e' u0 where "save d (set_password H rnd pw u0) = Inr (d', u)"
    using assms(2) by (rule create_user_InrE)
  with assms(1) show ?thesis by (rule save_db_inv)
qed

lemma filter_email_distinct:
  "distinct (map (\<lambda>(i, r). email r) xs) \<Longrightarrow> length (filter (\<lambda>(i, r). email r = k) xs) \<le> 1"
proof (induction xs)
  case (Cons p ps)
  then show ?case by (cases p) (force simp: filter_empty_conv image_iff)
qed simp

lemma get_by_natural_key_not_multiple:
  "db_inv d \<Longrightarrow> get_by_natural_key d name \<noteq> Inl MultipleObjectsReturned"
  using filter_email_distinct [of "rows d" name]
  by (auto simp: get_by_natural_key_def get_username_def db_inv_def split: list.splits)

lemma get_by_natural_key_Inl:
  "get_by_natural_key d name = Inl err \<Longrightarrow> err = DoesNotExist \<or> err = MultipleObjectsReturned"
  by (auto simp: get_by_natural_key_def split: list.splits)

section \<open>Logging in with a created account\<close>

text \<open>
  C20: an active account created with password \<open>p\<close> logs in with its canonical
  address and \<open>p\<close>, and the backend returns exactly the created account.
\<close>

theorem create_user_login:
  assumes "hasher_ok H" and "db_inv d"
    and "create_user H rnd d (Some e) (Some p) kw = Inr (d', u)"
    and "value_or True (kw_is_active kw)"
  shows "authenticate H d' (Some (clean_email e)) (Some p) = Inr (Some u)"
proof -
  have look: "get_by_natural_key d' (clean_email e) = Inr u"
    using assms(2,3) by (rule create_user_lookup)
  from create_user_Inr [OF assms(3)] have pw: "password u = make_password H rnd (Some p)"
    and act: "is_active u = value_or True (kw_is_active kw)" by auto
  have "user_check_password H (Some p) u"
    using assms(1) pw by (simp add: user_check_password_def check_make_password_Some hasher_ok_def)
  with look act assms(4) show ?thesis
    by (simp add: authenticate_def user_can_authenticate_def)
qed

theorem create_user_login_witness:
  "\<exists>d' u. hasher_ok plain_hasher \<and> db_inv empty_db
    \<and> create_user plain_hasher ''s'' empty_db (Some ''Pat@Web.DE'') (Some ''pw'') no_extra_fields = Inr (d', u)
    \<and> value_or True (kw_is_active no_extra_fields)
    \<and> authenticate plain_hasher d' (Some ''pat@web.de'') (Some ''pw'') = Inr (Some u)"
proof -
  have h: "hasher_ok plain_hasher" "db_inv empty_db" "value_or True (kw_is_active no_extra_fields)"
    by (simp_all add: eval_simps)
  have "\<exists>d' u. create_user plain_hasher ''s'' empty_db (Some ''Pat@Web.DE'') (Some ''pw'')
      no_extra_fields = Inr (d', u)"
    by (simp add: eval_simps)
  then obtain d' u where r: "create_user plain_hasher ''s'' empty_db (Some ''Pat@Web.DE'') (Some ''pw'')
      no_extra_fields = Inr (d', u)" by blast
  have c: "clean_email ''Pat@Web.DE'' = ''pat@web.de''" by (simp add: eval_simps)
  from create_user_login [OF h(1,2) r h(3)] c h r show ?thesis by auto
qed

text \<open>
  C23: an account created without a password never logs in: with its own address,
  every password is refused.
\<close>

theorem create_user_no_password_no_login:
  assumes "db_inv d" and "create_user H rnd d (Some e) None kw = Inr (d', u)"
  shows "authenticate H d' (Some (clean_email e)) pw = Inr None"
proof -
  have look: "get_by_natural_key d' (clean_email e) = Inr u"
    using assms by (rule create_user_lookup)
  have "password u = make_password H rnd None" using assms(2) by (rule create_user_password)
  then have "\<not> user_check_password H (Some raw) u" for raw
    by (simp add: user_check_password_def)
  with look show ?thesis by (cases pw) (simp_all add: authenticate_def)
qed

theorem create_user_no_password_no_login_witness:
  "\<exists>d' u. db_inv empty_db
    \<and> create_user plain_hasher ''r'' empty_db (Some ''q@r.st'') None no_extra_fields = Inr (d', u)
    \<and> authenticate plain_hasher d' (Some (clean_email ''q@r.st'')) (Some ''!r'') = Inr None"
proof -
  have h: "db_inv empty_db" by (simp add: eval_simps)
  have "\<exists>d' u. create_user plain_hasher ''r'' empty_db (Some ''q@r.st'') None no_extra_fields = Inr (d', u)"
    by (simp add: eval_simps)
  then obtain d' u where r: "create_user plain_hasher ''r'' empty_db (Some ''q@r.st'') None
      no_extra_fields = Inr (d', u)" by blast
  from create_user_no_password_no_login [OF h r] h r show ?thesis by blast
qed

section \<open>The admin site and the superuser\<close>

text \<open>
  C21: the instance \<^verbatim>\<open>create_superuser\<close> returns passes the admin site's check,
  but the same account read back from the table, as every later request reads it,
  makes the check raise \<^verbatim>\<open>AttributeError\<close>: \<^verbatim>\<open>is_staff\<close> was never stored.
\<close>

theorem create_superuser_admin_check:
  assumes "create_superuser H rnd d e pw kw = Inr (d', u)" and "value_or True (kw_is_active kw)"
  shows "admin_has_permission u = Inr True
    \<and> (\<exists>i v. pk u = Some i \<and> get_user d' i = Some v
         \<and> admin_has_permission v = Inl (AttributeError ''is_staff''))"
proof -
  from create_superuser_Inr [OF assms(1)] obtain d1 u1 i where cu: "create_user H rnd d e pw kw = Inr (d1, u1)"
    and i: "pk u1 = Some i" and u: "u = u1\<lparr>is_staff := Some True, is_superuser := True\<rparr>"
    and rows: "rows d' = AList.update i (row_of u) (rows d1)" by blast
  from create_user_Inr [OF cu] have "is_active u1 = value_or True (kw_is_active kw)" by auto
  with assms(2) u have act: "is_active u" by simp
  have "get_user d' i = Some (u\<lparr>pk := Some i, is_staff := None\<rparr>)"
    using rows by (simp add: get_user_saved update_conv')
  with act u i show ?thesis by (simp add: admin_has_permission_def)
qed

theorem create_superuser_admin_check_witness:
  "\<exists>d' u. create_superuser plain_hasher ''s'' empty_db (Some ''root@site.io'') (Some ''pw'')
      no_extra_fields = Inr (d', u) \<and> value_or True (kw_is_active no_extra_fields)
    \<and> get_user d' 1 \<noteq> None
    \<and> admin_has_permission (the (get_user d' 1)) = Inl (AttributeError ''is_staff'')"
proof -
  have "\<exists>d' u. create_superuser plain_hasher ''s'' empty_db (Some ''root@site.io'') (Some ''pw'')
      no_extra_fields = Inr (d', u)"
    by (simp add: eval_simps)
  then obtain d' u where r: "create_superuser plain_hasher ''s'' empty_db (Some ''root@site.io'')
      (Some ''pw'') no_extra_fields = Inr (d', u)" by blast
  have a: "value_or True (kw_is_active no_extra_fields)" by (simp add: no_extra_fields_def)
  have "pk u = Some 1" using r by (auto simp: eval_simps)
  with create_superuser_admin_check [OF r a] r a show ?thesis by auto
qed

text \<open>
  C22: read back from the table, an account made by \<^verbatim>\<open>create_superuser\<close> (active
  unless told otherwise) holds every permission, whatever the permission backends say.
\<close>

theorem create_superuser_has_all_perms:
  assumes "create_superuser H rnd d e pw kw = Inr (d', u)" and "value_or True (kw_is_active kw)"
    and "pk u = Some i"
  shows "\<exists>v. get_user d' i = Some v \<and> (\<forall>perm. has_perm backend v perm)"
proof -
  from create_superuser_Inr [OF assms(1)] obtain d1 u1 j where cu: "create_user H rnd d e pw kw = Inr (d1, u1)"
    and j: "pk u1 = Some j" and u: "u = u1\<lparr>is_staff := Some True, is_superuser := True\<rparr>"
    and rows: "rows d' = AList.update j (row_of u) (rows d1)" by blast
  from u j assms(3) have "j = i" by simp
  from create_user_Inr [OF cu] have "is_active u1 = value_or True (kw_is_active kw)" by auto
  with assms(2) u have act: "is_active u" "is_superuser u" by simp_all
  have "get_user d' i = Some (u\<lparr>pk := Some i, is_staff := None\<rparr>)"
    using rows \<open>j = i\<close> by (simp add: get_user_saved update_conv')
  with act show ?thesis by (simp add: has_perm_def)
qed

theorem create_superuser_has_all_perms_witness:
  "\<exists>d' u. create_superuser plain_hasher ''s'' empty_db (Some ''root@site.io'') None
      no_extra_fields = Inr (d', u) \<and> value_or True (kw_is_active no_extra_fields) \<and> pk u = Some 1
    \<and> (\<forall>perm. has_perm (\<lambda>_ _. False) (the (get_user d' 1)) perm)"
proof -
  have "\<exists>d' u. create_superuser plain_hasher ''s'' empty_db (Some ''root@site.io'') None
      no_extra_fields = Inr (d', u)"
    by (simp add: eval_simps)
  then obtain d' u where r: "create_superuser plain_hasher ''s'' empty_db (Some ''root@site.io'')
      None no_extra_fields = Inr (d', u)" by blast
  have a: "value_or True (kw_is_active no_extra_fields)" by (simp add: no_extra_fields_def)
  have p: "pk u = Some 1" using r by (auto simp: eval_simps)
  from create_superuser_has_all_perms [OF r a p, of "\<lambda>_ _. False"] r a p show ?thesis by auto
qed

end
