(* ===== verification/Spec2Isabelle.thy ===== *)
theory Spec2Isabelle
  imports Auth
begin

text \<open>
  \<^bold>\<open>A verification model of the custom user account of full-auth-system-django-rest.\<close>

  \<^bold>\<open>The program.\<close> src/users/models.py declares the model \<^verbatim>\<open>UserAccount\<close>
  (fields \<^verbatim>\<open>first_name\<close>, \<^verbatim>\<open>last_name\<close>, a unique \<^verbatim>\<open>email\<close>, the flags
  \<^verbatim>\<open>is_active\<close>, \<^verbatim>\<open>is_admin\<close>, \<^verbatim>\<open>is_superuser\<close>, plus the inherited
  \<^verbatim>\<open>password\<close> and \<^verbatim>\<open>last_login\<close>) and its manager
  \<^verbatim>\<open>UserAccountManager\<close> with the two factory methods \<^verbatim>\<open>create_user\<close> and
  \<^verbatim>\<open>create_superuser\<close>. The factory calls three collaborators of Django:
  \<^verbatim>\<open>normalize_email\<close>, the password hashers behind \<^verbatim>\<open>set_password\<close>, and
  \<^verbatim>\<open>Model.save()\<close> on the table \<^verbatim>\<open>users_useraccount\<close>.
  \<^verbatim>\<open>create_superuser\<close> calls \<^verbatim>\<open>create_user\<close> and saves the result again.
  The e-mail is the login identifier (\<^verbatim>\<open>USERNAME_FIELD\<close>): Django's
  authentication finds accounts through the manager by that column.

  \<^bold>\<open>The theories.\<close>
  \<^item> \<open>Prelude\<close>: the exceptions as the datatype \<open>error\<close> (results are
    \<open>error + 'a\<close>), optional keyword arguments (\<open>value_or\<close>), the collection
    \<open>eval_simps\<close> that runs the model on concrete inputs, and lemmas on association lists.
  \<^item> \<open>Email\<close>: Python's \<^verbatim>\<open>isspace\<close>, \<^verbatim>\<open>strip\<close>, \<^verbatim>\<open>rsplit('@', 1)\<close>
    and \<^verbatim>\<open>lower\<close> on Latin-1 code points, Django's \<open>normalize_email\<close>, and
    \<open>clean_email\<close>, lines 13--14 of \<^verbatim>\<open>create_user\<close>. Lemmas: lowering commutes
    with normalisation; the canonical form is idempotent, lowercase, non-empty,
    insensitive to letter case (C15), and exactly characterised by the position of
    \<open>@\<close> (C16).
  \<^item> \<open>Password\<close>: \<^verbatim>\<open>make_password\<close>, \<^verbatim>\<open>is_password_usable\<close> and
    \<^verbatim>\<open>check_password\<close> over the interface \<open>hasher\<close> (\<^verbatim>\<open>encode\<close>,
    \<^verbatim>\<open>verify\<close>), with the contract \<open>hasher_ok\<close> every Django hasher meets and
    the idealisation \<open>hasher_injective\<close>; \<open>plain_hasher\<close> instantiates both.
  \<^item> \<open>Account\<close>: the stored row \<open>user_row\<close> and the Python instance
    \<open>user_account\<close> (the row plus its primary key and the attribute \<^verbatim>\<open>is_staff\<close>,
    which no field declares); the keyword arguments \<open>extra_fields\<close>; the constructor
    \<open>new_user\<close>; \<open>set_password\<close>, \<open>user_check_password\<close>,
    \<open>has_usable_password\<close>, \<open>user_str\<close>, \<open>username_field\<close>,
    \<open>required_fields\<close>; the table \<open>db\<close> (an association list from key to row and
    the auto-increment counter), \<open>save\<close> with its three paths (\<^verbatim>\<open>INSERT\<close>
    under the next id, \<^verbatim>\<open>UPDATE\<close> of an existing key, \<^verbatim>\<open>INSERT\<close> under an
    explicit key), the \<^verbatim>\<open>UNIQUE\<close> check \<open>email_taken\<close>, and \<open>get_user\<close>.
    Lemmas: every successful save keeps the table invariant \<open>db_inv\<close> (distinct keys,
    distinct addresses, keys below the counter) and the canonical addresses
    \<open>emails_clean\<close>; what a save writes and returns.
  \<^item> \<open>Manager\<close>: \<open>create_user\<close> and \<open>create_superuser\<close>, each the whole
    method with its guards and every call that changes state. Lemmas: the result on
    every branch (C1 missing address, C12 unknown keyword, C3 and C19 duplicate
    address, C2 and C11 success, C17 explicit key, C18 no format check), the password
    of the stored account (C8--C10), and the superuser's flags (C6, C7).
  \<^item> \<open>Auth\<close>: what the table is for, logging in. \<^verbatim>\<open>USERNAME_FIELD = 'email'\<close>
    (\<open>get_username\<close>) drives Django's \<open>get_by_natural_key\<close>, the model backend's
    \<open>authenticate\<close>, the admin site's \<open>admin_has_permission\<close> and
    \<open>has_perm\<close>. Lemmas: a created account logs in with its canonical address
    (C20) and never without a password (C23); the superuser passes the admin check only
    as the returned instance, and read back makes it raise (C21), while holding every
    permission (C22).
  \<^item> This theory: an abstract account registry keyed by canonical address
    (\<open>accounts_of\<close> maps a table to it) with the operations
    \<open>create_account_spec\<close> and \<open>create_superuser_spec\<close>, and the functional
    refinements of \<open>create_user\<close> (C4) and \<open>create_superuser\<close> (C14) to them;
    the inductive set \<open>reachable\<close> of tables the factory produces from an empty one,
    with invariants by rule induction: keys and canonical addresses unique (C5), no
    admin-panel account ever created (C13), every stored address a fixed point of
    \<open>clean_email\<close>. On those tables logins succeed only under lowercase addresses
    (C24), never raise (C25), and refuse the address as typed at registration whenever
    canonicalisation changed it (C26).

  \<^bold>\<open>Modelling choices.\<close> Strings are lists of Latin-1 code points (one \<open>char\<close>
  each); \<^verbatim>\<open>str.lower\<close> and \<^verbatim>\<open>str.isspace\<close> agree with CPython there.
  Randomness (salts, the unusable-password suffix) is an input \<open>rnd\<close>. The database
  is SQLite as Django configures it by default: \<^verbatim>\<open>AUTOINCREMENT\<close> keys, the counter
  raised by an explicit key, a failed statement changing nothing. There is no loop, so
  no fuel: every definition is total and executable, and the witnesses run the
  factory by \<open>simp\<close> on concrete inputs.

  Keyword arguments are typed (\<open>extra_fields\<close>): a value of the wrong type, or
  \<^verbatim>\<open>None\<close> for a NOT NULL column, cannot be passed; every name that is not a
  field is a \<^verbatim>\<open>TypeError\<close>, so the model does not distinguish property names
  (\<^verbatim>\<open>AttributeError\<close> in Django 4.1 and later) or reverse-relation names (accepted
  and ignored).

  \<^bold>\<open>Not modelled.\<close> The hash algorithms (abstract behind \<open>hasher\<close>); the
  \<^verbatim>\<open>password_changed\<close> validators run after a save; the field lengths
  (\<^verbatim>\<open>max_length\<close>, not checked by \<^verbatim>\<open>save()\<close> and not enforced by SQLite);
  the many-to-many \<^verbatim>\<open>groups\<close> and \<^verbatim>\<open>user_permissions\<close>; the admin site, djoser
  and migrations; concurrent requests (Django runs each call in one request; the
  \<^verbatim>\<open>UNIQUE\<close> constraint arbitrates races, which the sequential model of
  \<open>save\<close> reflects).
\<close>

section \<open>The abstract account registry\<close>

text \<open>
  What the factory promises, in the spec's terms: a registry from canonical address
  to account; creation fails on a missing address, on an unknown keyword and on an
  address already registered, and otherwise registers one account with the default
  flags (active, neither admin nor superuser) unless the keywords override them.
\<close>

type_synonym accounts = "string \<rightharpoonup> user_row"

definition accounts_of :: "db \<Rightarrow> accounts" where
  "accounts_of d = map_of (map (\<lambda>(i, r). (email r, r)) (rows d))"

definition spec_account :: "hasher \<Rightarrow> rnd_str \<Rightarrow> string \<Rightarrow> string option \<Rightarrow> extra_fields \<Rightarrow> user_row" where
  "spec_account H rnd k pw kw =
    \<lparr>password = make_password H rnd pw, last_login = value_or None (kw_last_login kw),
     is_superuser = value_or False (kw_is_superuser kw), first_name = value_or [] (kw_first_name kw),
     last_name = value_or [] (kw_last_name kw), email = k,
     is_active = value_or True (kw_is_active kw), is_admin = value_or False (kw_is_admin kw)\<rparr>"

definition register :: "accounts \<Rightarrow> string \<Rightarrow> user_row \<Rightarrow> error + accounts" where
  "register A k r = (case A k of None \<Rightarrow> Inr (A(k \<mapsto> r)) | Some _ \<Rightarrow> Inl unique_email_violation)"

definition create_account_spec :: "hasher \<Rightarrow> rnd_str \<Rightarrow> accounts \<Rightarrow> string option \<Rightarrow>
    string option \<Rightarrow> extra_fields \<Rightarrow> error + accounts" where
  "create_account_spec H rnd A email_arg pw kw =
    (case email_arg of
       None \<Rightarrow> Inl (ValueError email_required_msg)
     | Some e \<Rightarrow>
         if e = [] then Inl (ValueError email_required_msg)
         else if kw_unexpected kw \<noteq> [] then Inl (TypeError (kw_unexpected kw))
         else register A (clean_email e) (spec_account H rnd (clean_email e) pw kw))"

text \<open>
  \<^verbatim>\<open>create_superuser\<close> in the same terms: register the account as
  \<^verbatim>\<open>create_user\<close> does, then mark it superuser. \<^verbatim>\<open>is_staff\<close> is not a
  column, so the registry has nothing to record for it.
\<close>

definition promote_superuser :: "string \<Rightarrow> accounts \<Rightarrow> accounts" where
  "promote_superuser k A = A(k := map_option (\<lambda>r. r\<lparr>is_superuser := True\<rparr>) (A k))"

definition create_superuser_spec :: "hasher \<Rightarrow> rnd_str \<Rightarrow> accounts \<Rightarrow> string option \<Rightarrow>
    string option \<Rightarrow> extra_fields \<Rightarrow> error + accounts" where
  "create_superuser_spec H rnd A email_arg pw kw =
    map_sum id (promote_superuser (clean_email (the email_arg)))
      (create_account_spec H rnd A email_arg pw kw)"

section \<open>Reachable tables\<close>

text \<open>
  The tables the factory produces from an empty one, when every call's keyword
  arguments satisfy \<open>allowed\<close> (the callers' discipline; \<open>\<lambda>_. True\<close> for
  none).
\<close>

inductive reachable :: "(extra_fields \<Rightarrow> bool) \<Rightarrow> db \<Rightarrow> bool" for allowed where
  start: "reachable allowed empty_db"
| user_step: "reachable allowed d \<Longrightarrow> allowed kw \<Longrightarrow>
    create_user H rnd d e pw kw = Inr (d', u) \<Longrightarrow> reachable allowed d'"
| superuser_step: "reachable allowed d \<Longrightarrow> allowed kw \<Longrightarrow>
    create_superuser H rnd d e pw kw = Inr (d', u) \<Longrightarrow> reachable allowed d'"

lemmas [eval_simps] = accounts_of_def spec_account_def register_def create_account_spec_def
  promote_superuser_def create_superuser_spec_def

section \<open>Refinement\<close>

lemma accounts_of_None_iff: "accounts_of d k = None \<longleftrightarrow> \<not> email_taken d None k"
  by (force simp: accounts_of_def email_taken_iff map_of_eq_None_iff)

lemma accounts_of_snoc:
  assumes "accounts_of d k = None" and "rows d' = rows d @ [(i, r)]" and "email r = k"
  shows "accounts_of d' = (accounts_of d)(k \<mapsto> r)"
  using assms by (auto simp: accounts_of_def fun_eq_iff map_add_def split: option.splits)

lemma create_user_row_spec:
  assumes "create_user H rnd d (Some e) pw kw = Inr (d', u)"
  shows "row_of u = spec_account H rnd (clean_email e) pw kw"
  using create_user_Inr [OF assms] by (auto simp: row_of_def spec_account_def)

lemma create_user_refinement:
  assumes "db_inv d" and "kw_id kw = None"
  shows "map_sum id (\<lambda>(d', u). accounts_of d') (create_user H rnd d email_arg pw kw)
    = create_account_spec H rnd (accounts_of d) email_arg pw kw"
proof (cases "email_arg = None \<or> email_arg = Some [] \<or> kw_unexpected kw \<noteq> []")
  case True
  then show ?thesis
    by (auto simp: create_user_def create_account_spec_def new_user_def split: option.splits)
next
  case False
  then obtain e where e: "email_arg = Some e" "e \<noteq> []" and kw: "kw_unexpected kw = []"
    by (cases email_arg) auto
  let ?k = "clean_email e"
  have spec: "create_account_spec H rnd (accounts_of d) email_arg pw kw
      = register (accounts_of d) ?k (spec_account H rnd ?k pw kw)"
    using e kw by (simp add: create_account_spec_def)
  note call = create_user_new_row [OF e(2) kw assms(2), of H rnd d pw]
  show ?thesis
  proof (cases "email_taken d None ?k")
    case True
    with call e have "create_user H rnd d email_arg pw kw = Inl unique_email_violation" by simp
    moreover have "accounts_of d ?k \<noteq> None" using True by (simp add: accounts_of_None_iff)
    ultimately show ?thesis using spec by (auto simp: register_def)
  next
    case False
    with call e obtain d' u where r: "create_user H rnd d (Some e) pw kw = Inr (d', u)"
      by (metis sum.exhaust surj_pair)
    from create_user_Inr [OF r] assms(2) have rows: "rows d' = AList.update (Suc (seq d)) (row_of u) (rows d)"
      and em: "email u = ?k" by auto
    have "rows d' = rows d @ [(Suc (seq d), row_of u)]"
      using rows db_inv_fresh_key [OF assms(1)] by (simp add: update_append_fresh)
    moreover have free: "accounts_of d ?k = None" using False by (simp add: accounts_of_None_iff)
    ultimately have "accounts_of d' = (accounts_of d)(?k \<mapsto> row_of u)"
      using em by (intro accounts_of_snoc) simp_all
    with free r e spec create_user_row_spec [OF r] show ?thesis by (simp add: register_def)
  qed
qed

text \<open>
  C4: on a consistent table and without an explicit primary key, \<open>create_user\<close>
  implements the registry: mapping its result to the registry view gives exactly the
  abstract operation's result, errors included.
\<close>

theorem create_user_refines:
  assumes "db_inv d" and "kw_id kw = None"
  shows "map_sum id (\<lambda>(d', u). accounts_of d') (create_user H rnd d email_arg pw kw)
    = create_account_spec H rnd (accounts_of d) email_arg pw kw"
  using assms by (rule create_user_refinement)

theorem create_user_refines_witness:
  "db_inv empty_db \<and> kw_id no_extra_fields = None
   \<and> map_sum id (\<lambda>(d', u). accounts_of d')
       (create_user plain_hasher ''s'' empty_db (Some ''Eve@Host.NET'') None no_extra_fields)
     = create_account_spec plain_hasher ''s'' (accounts_of empty_db) (Some ''Eve@Host.NET'') None
         no_extra_fields"
proof -
  have h: "db_inv empty_db" "kw_id no_extra_fields = None"
    by (simp_all add: db_inv_def empty_db_def no_extra_fields_def)
  with create_user_refines [OF h] show ?thesis by blast
qed

text \<open>
  The registry view of a table whose keys and addresses are unique: an account is
  found under its address, and rewriting the row of a key without changing its
  address rewrites the registry entry of that address.
\<close>

lemma accounts_of_lookup:
  assumes "db_inv d" and "(i, r) \<in> set (rows d)"
  shows "accounts_of d (email r) = Some r"
proof -
  have "distinct (map fst (map (\<lambda>(i, r). (email r, r)) (rows d)))"
    using assms(1) by (simp add: db_inv_def comp_def split_def)
  moreover have "(email r, r) \<in> set (map (\<lambda>(i, r). (email r, r)) (rows d))"
    using assms(2) by force
  ultimately show ?thesis by (simp add: accounts_of_def map_of_is_SomeI)
qed

lemma map_of_emails_update:
  assumes "distinct (map fst xs)" and "distinct (map (\<lambda>(i, r). email r) xs)"
    and "map_of xs i = Some r" and "email r' = email r"
  shows "map_of (map (\<lambda>(i, r). (email r, r)) (AList.update i r' xs))
    = (map_of (map (\<lambda>(i, r). (email r, r)) xs))(email r \<mapsto> r')"
  using assms
proof (induction xs)
  case Nil
  then show ?case by simp
next
  case (Cons p ps)
  obtain j s where p: "p = (j, s)" by (cases p)
  show ?case
  proof (cases "j = i")
    case True
    with Cons.prems p show ?thesis by (simp add: fun_eq_iff)
  next
    case False
    with Cons.prems p have "map_of ps i = Some r" by simp
    then have "(i, r) \<in> set ps" by (rule map_of_SomeD)
    with Cons.prems p have ne: "email s \<noteq> email r" by force
    have "map_of (map (\<lambda>(i, r). (email r, r)) (AList.update i r' ps))
        = (map_of (map (\<lambda>(i, r). (email r, r)) ps))(email r \<mapsto> r')"
      using Cons.IH Cons.prems p False by (simp add: fun_eq_iff)
    with False ne p show ?thesis by (auto simp: fun_eq_iff)
  qed
qed

lemma row_of_superuser:
  "row_of (u\<lparr>is_staff := s\<rparr>\<lparr>is_superuser := True\<rparr>) = (row_of u)\<lparr>is_superuser := True\<rparr>"
  by (simp add: row_of_def)

text \<open>
  C14: on a consistent table and without an explicit primary key,
  \<open>create_superuser\<close> implements the registry's superuser creation: the account
  is registered as by \<open>create_user\<close>, errors included, and then holds
  \<^verbatim>\<open>is_superuser\<close>; nothing else of the registry changes.
\<close>

theorem create_superuser_refines:
  assumes "db_inv d" and "kw_id kw = None"
  shows "map_sum id (\<lambda>(d', u). accounts_of d') (create_superuser H rnd d email_arg pw kw)
    = create_superuser_spec H rnd (accounts_of d) email_arg pw kw"
proof (cases "create_user H rnd d email_arg pw kw")
  case (Inl err)
  then have "create_account_spec H rnd (accounts_of d) email_arg pw kw = Inl err"
    using create_user_refinement [OF assms, of H rnd email_arg pw] by simp
  with Inl show ?thesis by (simp add: create_superuser_def create_superuser_spec_def)
next
  case (Inr res)
  then obtain d1 u1 where cu: "create_user H rnd d email_arg pw kw = Inr (d1, u1)"
    by (cases res) auto
  then have spec: "create_account_spec H rnd (accounts_of d) email_arg pw kw = Inr (accounts_of d1)"
    using create_user_refinement [OF assms, of H rnd email_arg pw] by simp
  from create_user_Inr [OF cu] obtain e where e: "email_arg = Some e"
    and em: "email u1 = clean_email e" by blast
  have inv1: "db_inv d1" using assms(1) cu by (rule create_user_db_inv)
  obtain i where row: "map_of (rows d1) i = Some (row_of u1)"
    and cs: "create_superuser H rnd d email_arg pw kw = Inr (d1\<lparr>rows := AList.update i
           (row_of (u1\<lparr>is_staff := Some True\<rparr>\<lparr>is_superuser := True\<rparr>)) (rows d1)\<rparr>,
         u1\<lparr>is_staff := Some True\<rparr>\<lparr>is_superuser := True\<rparr>)"
    using cu by (rule create_superuser_save)
  have look: "accounts_of d1 (clean_email e) = Some (row_of u1)"
    using accounts_of_lookup [OF inv1 map_of_SomeD [OF row]] em by (simp add: row_of_def)
  have "map_of (map (\<lambda>(i, r). (email r, r)) (AList.update i ((row_of u1)\<lparr>is_superuser := True\<rparr>) (rows d1)))
      = (accounts_of d1)(email (row_of u1) \<mapsto> (row_of u1)\<lparr>is_superuser := True\<rparr>)"
    using inv1 row unfolding accounts_of_def db_inv_def by (intro map_of_emails_update) simp_all
  with cs spec e look em show ?thesis
    by (simp add: create_superuser_spec_def promote_superuser_def accounts_of_def row_of_superuser
      row_of_def)
qed

theorem create_superuser_refines_witness:
  "db_inv empty_db \<and> kw_id no_extra_fields = None
   \<and> map_sum id (\<lambda>(d', u). accounts_of d')
       (create_superuser plain_hasher ''s'' empty_db (Some ''Root@Host.NET'') (Some ''pw'') no_extra_fields)
     = create_superuser_spec plain_hasher ''s'' (accounts_of empty_db) (Some ''Root@Host.NET'') (Some ''pw'')
         no_extra_fields"
proof -
  have h: "db_inv empty_db" "kw_id no_extra_fields = None"
    by (simp_all add: db_inv_def empty_db_def no_extra_fields_def)
  with create_superuser_refines [OF h] show ?thesis by blast
qed

section \<open>Invariants of reachable tables\<close>

lemma reachable_inv:
  assumes "reachable allowed d"
  shows "db_inv d \<and> emails_clean d"
  using assms
proof (induction rule: reachable.induct)
  case start
  show ?case by (simp add: db_inv_def emails_clean_def empty_db_def)
next
  case (user_step d kw H rnd e pw d' u)
  then show ?case using create_user_invariants by blast
next
  case (superuser_step d kw H rnd e pw d' u)
  then show ?case using create_superuser_invariants by blast
qed

text \<open>
  C5: in every table the factory produces, keys and addresses are unique, keys stay
  below the counter, and every stored address is non-empty and in canonical
  lowercase form.
\<close>

theorem reachable_invariants:
  assumes "reachable allowed d"
  shows "db_inv d \<and> emails_clean d"
  using assms by (rule reachable_inv)

theorem reachable_invariants_witness:
  "\<exists>d u. create_superuser plain_hasher ''s'' empty_db (Some ''Root@Site.IO'') None no_extra_fields
      = Inr (d, u) \<and> reachable (\<lambda>_. True) d \<and> db_inv d \<and> emails_clean d"
proof -
  have "\<exists>d u. create_superuser plain_hasher ''s'' empty_db (Some ''Root@Site.IO'') None
      no_extra_fields = Inr (d, u)"
    by (simp add: eval_simps)
  then obtain d u where r: "create_superuser plain_hasher ''s'' empty_db (Some ''Root@Site.IO'') None
      no_extra_fields = Inr (d, u)" by blast
  have "reachable (\<lambda>_. True) d"
    by (rule reachable.superuser_step [OF reachable.start _ r]) simp
  with r reachable_invariants [of "\<lambda>_. True" d] show ?thesis by blast
qed

text \<open>
  C13: unless a caller passes \<^verbatim>\<open>is_admin\<close> explicitly, no stored account ever has
  \<^verbatim>\<open>is_admin\<close> set, not even one made by \<^verbatim>\<open>create_superuser\<close>: the admin-panel
  flag the model declares is unreachable through the factory.
\<close>

theorem reachable_no_admin:
  assumes "reachable (\<lambda>kw. kw_is_admin kw = None) d"
  shows "list_all (\<lambda>(i, r). \<not> is_admin r) (rows d)"
  using assms
proof (induction rule: reachable.induct)
  case start
  show ?case by (simp add: empty_db_def)
next
  case (user_step d kw H rnd e pw d' u)
  then show ?case using create_user_no_admin by blast
next
  case (superuser_step d kw H rnd e pw d' u)
  then show ?case using create_superuser_no_admin by blast
qed

theorem reachable_no_admin_witness:
  "\<exists>d u. create_superuser plain_hasher ''s'' empty_db (Some ''boss@site.io'') (Some ''pw'')
      no_extra_fields = Inr (d, u)
    \<and> reachable (\<lambda>kw. kw_is_admin kw = None) d \<and> is_superuser u
    \<and> list_all (\<lambda>(i, r). \<not> is_admin r) (rows d)"
proof -
  have "\<exists>d u. create_superuser plain_hasher ''s'' empty_db (Some ''boss@site.io'') (Some ''pw'')
      no_extra_fields = Inr (d, u)"
    by (simp add: eval_simps)
  then obtain d u where r: "create_superuser plain_hasher ''s'' empty_db (Some ''boss@site.io'')
      (Some ''pw'') no_extra_fields = Inr (d, u)" by blast
  have reach: "reachable (\<lambda>kw. kw_is_admin kw = None) d"
    by (rule reachable.superuser_step [OF reachable.start _ r]) (simp add: no_extra_fields_def)
  have "is_superuser u" using r by (auto simp: eval_simps)
  with r reach reachable_no_admin [OF reach] show ?thesis by blast
qed

text \<open>
  Every stored address is a fixed point of the factory's canonicalisation: the
  factory stores \<open>clean_email e\<close>, and the second save of
  \<^verbatim>\<open>create_superuser\<close> keeps the address.
\<close>

lemma create_user_canonical:
  assumes "list_all (\<lambda>(i, r). clean_email (email r) = email r) (rows d)"
    and "create_user H rnd d e pw kw = Inr (d', u)"
  shows "list_all (\<lambda>(i, r). clean_email (email r) = email r) (rows d')
    \<and> clean_email (email u) = email u"
proof -
  from create_user_Inr [OF assms(2)] obtain e' i
    where rows: "rows d' = AList.update i (row_of u) (rows d)" and em: "email u = clean_email e'"
    by blast
  have c: "clean_email (email u) = email u" using em by (simp add: clean_email_idem)
  with assms(1) rows show ?thesis by (simp add: list_all_update row_of_def)
qed

lemma create_superuser_canonical:
  assumes "list_all (\<lambda>(i, r). clean_email (email r) = email r) (rows d)"
    and "create_superuser H rnd d e pw kw = Inr (d', u)"
  shows "list_all (\<lambda>(i, r). clean_email (email r) = email r) (rows d')"
proof -
  from create_superuser_Inr [OF assms(2)] obtain d1 u1 i
    where cu: "create_user H rnd d e pw kw = Inr (d1, u1)"
    and u: "u = u1\<lparr>is_staff := Some True, is_superuser := True\<rparr>"
    and rows: "rows d' = AList.update i (row_of u) (rows d1)" by blast
  from create_user_canonical [OF assms(1) cu]
  have "list_all (\<lambda>(i, r). clean_email (email r) = email r) (rows d1)"
    and "clean_email (email u) = email u" using u by simp_all
  with rows show ?thesis by (simp add: list_all_update row_of_def)
qed

lemma reachable_canonical:
  assumes "reachable allowed d"
  shows "list_all (\<lambda>(i, r). clean_email (email r) = email r) (rows d)"
  using assms
proof (induction rule: reachable.induct)
  case start
  show ?case by (simp add: empty_db_def)
next
  case (user_step d kw H rnd e pw d' u)
  then show ?case using create_user_canonical by blast
next
  case (superuser_step d kw H rnd e pw d' u)
  then show ?case using create_superuser_canonical by blast
qed

section \<open>Logging in to reachable tables\<close>

text \<open>
  C24: in a table the factory produced, a login succeeds only under a non-empty
  lowercase address, the stored address of the account returned: any address typed
  with a capital letter is refused.
\<close>

theorem reachable_login_canonical:
  assumes "reachable allowed d" and "authenticate H d (Some name) pw = Inr (Some v)"
  shows "lower name = name \<and> name \<noteq> [] \<and> email v = name"
proof (cases pw)
  case None
  with assms(2) show ?thesis by (simp add: authenticate_def)
next
  case (Some raw)
  with assms(2) have "get_by_natural_key d name = Inr v" by (simp add: authenticate_Some)
  then obtain i r where f: "filter (\<lambda>(i, r). email r = name) (rows d) = [(i, r)]"
    and v: "v = account_of i r" by (blast dest: get_by_natural_key_Inr)
  have "(i, r) \<in> set (filter (\<lambda>(i, r). email r = name) (rows d))" using f by simp
  then have mem: "(i, r) \<in> set (rows d)" and em: "email r = name" by auto
  have "emails_clean d" using reachable_inv [OF assms(1)] by simp
  with mem have "lower (email r) = email r \<and> email r \<noteq> []"
    by (auto simp: emails_clean_def list_all_iff)
  with em v show ?thesis by (simp add: account_of_def)
qed

theorem reachable_login_canonical_witness:
  "\<exists>d u. create_user plain_hasher ''s'' empty_db (Some ''Kim@Lab.ORG'') (Some ''pw'') no_extra_fields
      = Inr (d, u)
    \<and> reachable (\<lambda>_. True) d
    \<and> authenticate plain_hasher d (Some ''kim@lab.org'') (Some ''pw'') = Inr (Some u)
    \<and> lower ''kim@lab.org'' = ''kim@lab.org''"
proof -
  have "\<exists>d u. create_user plain_hasher ''s'' empty_db (Some ''Kim@Lab.ORG'') (Some ''pw'')
      no_extra_fields = Inr (d, u)"
    by (simp add: eval_simps)
  then obtain d u where r: "create_user plain_hasher ''s'' empty_db (Some ''Kim@Lab.ORG'') (Some ''pw'')
      no_extra_fields = Inr (d, u)" by blast
  have reach: "reachable (\<lambda>_. True) d"
    by (rule reachable.user_step [OF reachable.start _ r]) simp
  have login: "authenticate plain_hasher d (Some ''kim@lab.org'') (Some ''pw'') = Inr (Some u)"
    using r by (auto simp: eval_simps)
  from reachable_login_canonical [OF reach login] r reach login show ?thesis by blast
qed

text \<open>
  C25: on a table the factory produced, a login attempt never raises: the lookup
  cannot meet two rows with the same address, and \<^verbatim>\<open>DoesNotExist\<close> is caught.
\<close>

theorem reachable_authenticate_total:
  assumes "reachable allowed d"
  shows "\<exists>res. authenticate H d name pw = Inr res"
proof -
  have inv: "db_inv d" using reachable_inv [OF assms] by simp
  show ?thesis
  proof (cases "\<exists>n raw. name = Some n \<and> pw = Some raw")
    case True
    then obtain n raw where nr: "name = Some n" "pw = Some raw" by blast
    show ?thesis
    proof (cases "get_by_natural_key d n")
      case (Inl err)
      with get_by_natural_key_not_multiple [OF inv, of n] have "err = DoesNotExist"
        by (auto dest: get_by_natural_key_Inl)
      with Inl nr show ?thesis by (simp add: authenticate_def)
    next
      case (Inr v)
      with nr show ?thesis by (simp add: authenticate_def)
    qed
  next
    case False
    then show ?thesis by (auto simp: authenticate_def split: option.splits)
  qed
qed

theorem reachable_authenticate_total_witness:
  "\<exists>d u. create_user plain_hasher ''s'' empty_db (Some ''Kim@Lab.ORG'') (Some ''pw'') no_extra_fields
      = Inr (d, u)
    \<and> reachable (\<lambda>_. True) d
    \<and> (\<exists>res. authenticate plain_hasher d (Some ''kim@lab.org'') (Some ''guess'') = Inr res)"
proof -
  have "\<exists>d u. create_user plain_hasher ''s'' empty_db (Some ''Kim@Lab.ORG'') (Some ''pw'')
      no_extra_fields = Inr (d, u)"
    by (simp add: eval_simps)
  then obtain d u where r: "create_user plain_hasher ''s'' empty_db (Some ''Kim@Lab.ORG'') (Some ''pw'')
      no_extra_fields = Inr (d, u)" by blast
  have reach: "reachable (\<lambda>_. True) d"
    by (rule reachable.user_step [OF reachable.start _ r]) simp
  from reachable_authenticate_total [OF reach] r reach show ?thesis by blast
qed

text \<open>
  C26: in a table the factory produced, the address exactly as a user typed it at
  registration is refused at login, for every password, whenever the factory's
  canonicalisation changed it (a capital letter anywhere, or blanks around an address
  with \<open>@\<close>): the factory stores \<open>clean_email e\<close> but the login lookup
  compares the typed name with the stored one exactly.
\<close>

theorem reachable_typed_address_refused:
  assumes "reachable allowed d" and "clean_email name \<noteq> name"
  shows "authenticate H d (Some name) pw = Inr None"
proof -
  have "\<forall>(i, r) \<in> set (rows d). email r \<noteq> name"
    using reachable_canonical [OF assms(1)] assms(2) by (auto simp: list_all_iff)
  then have "filter (\<lambda>(i, r). get_username r = name) (rows d) = []"
    by (auto simp: filter_empty_conv get_username_def)
  then show ?thesis
    by (cases pw) (simp_all add: authenticate_def get_by_natural_key_def)
qed

theorem reachable_typed_address_refused_witness:
  "\<exists>d u. create_user plain_hasher ''s'' empty_db (Some ''Foo@Example.COM'') (Some ''pw'')
      no_extra_fields = Inr (d, u)
    \<and> reachable (\<lambda>_. True) d \<and> clean_email ''Foo@Example.COM'' \<noteq> ''Foo@Example.COM''
    \<and> authenticate plain_hasher d (Some ''Foo@Example.COM'') (Some ''pw'') = Inr None
    \<and> authenticate plain_hasher d (Some ''foo@example.com'') (Some ''pw'') = Inr (Some u)"
proof -
  have "\<exists>d u. create_user plain_hasher ''s'' empty_db (Some ''Foo@Example.COM'') (Some ''pw'')
      no_extra_fields = Inr (d, u)"
    by (simp add: eval_simps)
  then obtain d u where r: "create_user plain_hasher ''s'' empty_db (Some ''Foo@Example.COM'')
      (Some ''pw'') no_extra_fields = Inr (d, u)" by blast
  have reach: "reachable (\<lambda>_. True) d"
    by (rule reachable.user_step [OF reachable.start _ r]) simp
  have c: "clean_email ''Foo@Example.COM'' \<noteq> ''Foo@Example.COM''" by (simp add: eval_simps)
  have login: "authenticate plain_hasher d (Some ''foo@example.com'') (Some ''pw'') = Inr (Some u)"
    using r by (auto simp: eval_simps)
  from reachable_typed_address_refused [OF reach c] r reach c login show ?thesis by blast
qed

end
